theory Spec2Isabelle
  imports Main "HOL-Library.AList"
begin

section \<open>JavaScript strings and objects, as far as the router uses them\<close>

text \<open>
  Paths, roles and document ids are JavaScript strings, modelled as \<open>string\<close>
  (one \<open>char\<close> per code unit, code units below 256).

  \<open>s.split('/')\<close>: the pieces between the separators; the empty string gives one
  empty piece, and a string with n separators gives n + 1 pieces.
\<close>

fun split_on :: "char \<Rightarrow> string \<Rightarrow> string list" where
  "split_on c [] = [[]]"
| "split_on c (x # xs) =
     (if x = c then [] # split_on c xs
      else (case split_on c xs of
              [] \<Rightarrow> [[x]]
            | piece # pieces \<Rightarrow> (x # piece) # pieces))"

text \<open>\<open>s.startsWith(c)\<close> for a one-character prefix, and \<open>s.includes(c)\<close>.\<close>

fun startsWith :: "string \<Rightarrow> char \<Rightarrow> bool" where
  "startsWith [] c = False"
| "startsWith (x # xs) c = (x = c)"

definition str_includes :: "string \<Rightarrow> char \<Rightarrow> bool" where
  "str_includes s c = (c \<in> set s)"

text \<open>
  The route tables are object literals. Reading \<open>obj[key]\<close> gives the object's own
  property if there is one, and otherwise the property inherited from
  \<open>Object.prototype\<close> (a function, or the prototype itself for \<open>__proto__\<close>), and
  otherwise \<open>undefined\<close>. \<open>Object.entries\<close> lists the own properties only, in
  insertion order (no key of the tables is an array index).
\<close>

datatype jsval = JString string | JInherited

definition object_prototype_keys :: "string list" where
  "object_prototype_keys =
     [''constructor'', ''hasOwnProperty'', ''isPrototypeOf'', ''propertyIsEnumerable'',
      ''toLocaleString'', ''toString'', ''valueOf'', ''__proto__'',
      ''__defineGetter__'', ''__defineSetter__'', ''__lookupGetter__'', ''__lookupSetter__'']"

type_synonym js_object = "(string \<times> string) list"

definition js_get :: "js_object \<Rightarrow> string \<Rightarrow> jsval option" where
  "js_get obj key =
     (case map_of obj key of
        Some v \<Rightarrow> Some (JString v)
      | None \<Rightarrow> if key \<in> set object_prototype_keys then Some JInherited else None)"

text \<open>Truthiness: \<open>undefined\<close>, \<open>null\<close> and the empty string are falsy.\<close>

fun truthy :: "jsval option \<Rightarrow> bool" where
  "truthy None = False"
| "truthy (Some (JString s)) = (s \<noteq> [])"
| "truthy (Some JInherited) = True"

section \<open>The route tables (router.js, constructor)\<close>

definition routes :: js_object where
  "routes =
     [(''/'', ''pages/login.html''),
      (''/login'', ''pages/login.html''),
      (''/signup'', ''pages/signup.html''),
      (''/primeiro-acesso'', ''pages/primeiro-acesso.html''),
      (''/personal/dashboard'', ''pages/personal/dashboard.html''),
      (''/personal/exercises'', ''pages/personal/exercises.html''),
      (''/personal/create-workout'', ''pages/personal/create-workout.html''),
      (''/personal/student/:id'', ''pages/personal/student-details.html''),
      (''/personal/feedbacks'', ''pages/personal/feedbacks.html''),
      (''/student/dashboard'', ''pages/student/dashboard.html''),
      (''/student/view-workout'', ''pages/student/view-workout.html''),
      (''/personal/volume/:id'', ''pages/personal/volume-analysis.html'')]"

definition protectedRoutes :: js_object where
  "protectedRoutes =
     [(''/personal/dashboard'', ''personal''),
      (''/personal/exercises'', ''personal''),
      (''/personal/create-workout'', ''personal''),
      (''/personal/student/:id'', ''personal''),
      (''/personal/feedbacks'', ''personal''),
      (''/student/dashboard'', ''student''),
      (''/personal/volume/:id'', ''personal''),
      (''/student/view-workout'', ''student'')]"

definition publicRoutes :: "string list" where
  "publicRoutes = [''/login'', ''/signup'', ''/'', ''/primeiro-acesso'']"

section \<open>Route resolution (router.js, matchRoute and getRequiredType)\<close>

text \<open>
  The inner loop of \<open>matchRoute\<close> over the segment pairs (it runs only when both
  arrays have the same length, so the pairs are all of them). A segment of the
  pattern that starts with a colon stores the path's segment under the name after
  the colon; any other segment must be equal. Assigning \<open>params[name]\<close> again
  replaces the value in place.
\<close>

type_synonym params = "(string \<times> string) list"

fun match_parts :: "(string \<times> string) list \<Rightarrow> params \<Rightarrow> params option" where
  "match_parts [] ps = Some ps"
| "match_parts ((r, p) # rest) ps =
     (if startsWith r (CHR '':'') then match_parts rest (AList.update (drop 1 r) p ps)
      else if r \<noteq> p then None
      else match_parts rest ps)"

text \<open>The outer loop over \<open>Object.entries(this.routes)\<close>: the first pattern that matches.\<close>

fun match_entries :: "js_object \<Rightarrow> string \<Rightarrow> (string \<times> params) option" where
  "match_entries [] path = None"
| "match_entries ((route, file) # entries) path =
     (if \<not> str_includes route (CHR '':'') then match_entries entries path
      else let routeParts = split_on (CHR ''/'') route;
               pathParts = split_on (CHR ''/'') path
           in if length routeParts \<noteq> length pathParts then match_entries entries path
              else (case match_parts (zip routeParts pathParts) [] of
                      Some ps \<Rightarrow> Some (route, ps)
                    | None \<Rightarrow> match_entries entries path))"

definition matchRoute :: "string \<Rightarrow> (string \<times> params) option" where
  "matchRoute path =
     (if truthy (js_get routes path) then Some (path, [])
      else match_entries routes path)"

text \<open>\<open>getRequiredType\<close> has the same two stages, without collecting parameters.\<close>

fun parts_agree :: "(string \<times> string) list \<Rightarrow> bool" where
  "parts_agree [] = True"
| "parts_agree ((r, p) # rest) =
     (if \<not> startsWith r (CHR '':'') \<and> r \<noteq> p then False else parts_agree rest)"

fun required_entries :: "js_object \<Rightarrow> string \<Rightarrow> jsval option" where
  "required_entries [] path = None"
| "required_entries ((route, type) # entries) path =
     (if \<not> str_includes route (CHR '':'') then required_entries entries path
      else let routeParts = split_on (CHR ''/'') route;
               pathParts = split_on (CHR ''/'') path
           in if length routeParts \<noteq> length pathParts then required_entries entries path
              else if parts_agree (zip routeParts pathParts) then Some (JString type)
              else required_entries entries path)"

definition getRequiredType :: "string \<Rightarrow> jsval option" where
  "getRequiredType path =
     (if truthy (js_get protectedRoutes path) then js_get protectedRoutes path
      else required_entries protectedRoutes path)"

subsection \<open>The matching rule in the specification's words\<close>

text \<open>
  A pattern matches a path when both have the same number of segments and every
  segment of the pattern that is not a parameter (does not start with a colon) is
  equal to the path's segment at the same place. The parameters are the pairs of a
  parameter name and the path's segment at its place.
\<close>

definition is_param :: "string \<Rightarrow> bool" where
  "is_param seg = startsWith seg (CHR '':'')"

definition pattern_matches :: "string \<Rightarrow> string \<Rightarrow> bool" where
  "pattern_matches route path =
     (let rs = split_on (CHR ''/'') route; ps = split_on (CHR ''/'') path
      in length rs = length ps \<and> list_all (\<lambda>(r, p). is_param r \<or> r = p) (zip rs ps))"

definition param_pairs :: "string \<Rightarrow> string \<Rightarrow> (string \<times> string) list" where
  "param_pairs route path =
     map (\<lambda>(r, p). (drop 1 r, p))
       (filter (\<lambda>(r, p). is_param r)
          (zip (split_on (CHR ''/'') route) (split_on (CHR ''/'') path)))"

lemma match_parts_Some_iff:
  "(\<exists>prm. match_parts zs acc = Some prm) \<longleftrightarrow> list_all (\<lambda>(r, p). is_param r \<or> r = p) zs"
  by (induction zs acc rule: match_parts.induct) (auto simp: is_param_def)

lemma match_parts_map:
  "match_parts zs acc = Some prm \<Longrightarrow>
   map_of prm = map_of acc ++
     map_of (rev (map (\<lambda>(r, p). (drop 1 r, p)) (filter (\<lambda>(r, p). is_param r) zs)))"
proof (induction zs acc rule: match_parts.induct)
  case (1 ps)
  then show ?case by simp
next
  case (2 r p rest ps)
  show ?case
  proof (cases "startsWith r (CHR '':'')")
    case True
    have upd: "map_of (AList.update (drop 1 r) p ps) = (map_of ps)(drop 1 r \<mapsto> p)"
      by (rule update_conv')
    from 2 True have "map_of prm = map_of (AList.update (drop 1 r) p ps) ++
        map_of (rev (map (\<lambda>(r, p). (drop 1 r, p)) (filter (\<lambda>(r, p). is_param r) rest)))"
      by simp
    with True show ?thesis
      by (simp only: upd) (simp add: is_param_def)
  next
    case False
    with 2 show ?thesis
      by (simp add: is_param_def split: if_splits)
  qed
qed

lemma match_entries_find:
  "match_entries tbl path =
     (case find (\<lambda>route. str_includes route (CHR '':'') \<and> pattern_matches route path)
             (map fst tbl) of
        None \<Rightarrow> None
      | Some route \<Rightarrow>
          Some (route,
            the (match_parts (zip (split_on (CHR ''/'') route) (split_on (CHR ''/'') path)) [])))"
proof (induction tbl path rule: match_entries.induct)
  case (1 path)
  then show ?case by simp
next
  case (2 route fl entries path)
  let ?zs = "zip (split_on (CHR ''/'') route) (split_on (CHR ''/'') path)"
  show ?case
  proof (cases "str_includes route (CHR '':'') \<and> pattern_matches route path")
    case True
    then obtain prm where "match_parts ?zs [] = Some prm"
      using match_parts_Some_iff [of ?zs "[]"] by (auto simp: pattern_matches_def Let_def)
    with True show ?thesis by (simp add: pattern_matches_def Let_def)
  next
    case False
    then have "str_includes route (CHR '':'') \<Longrightarrow>
        length (split_on (CHR ''/'') route) = length (split_on (CHR ''/'') path) \<Longrightarrow>
        match_parts ?zs [] = None"
      using match_parts_Some_iff [of ?zs "[]"] by (auto simp: pattern_matches_def Let_def)
    with False 2 show ?thesis by (auto simp: Let_def pattern_matches_def)
  qed
qed

lemma routes_file_nonempty: "map_of routes path = Some fl \<Longrightarrow> fl \<noteq> []"
  by (auto simp: routes_def split: if_splits)

lemma matchRoute_exact: "map_of routes path = Some fl \<Longrightarrow> matchRoute path = Some (path, [])"
  using routes_file_nonempty [of path fl] by (simp add: matchRoute_def js_get_def)

lemma matchRoute_pattern:
  assumes "map_of routes path = None" and "path \<notin> set object_prototype_keys"
  shows "case find (\<lambda>route. str_includes route (CHR '':'') \<and> pattern_matches route path)
                (map fst routes) of
           None \<Rightarrow> matchRoute path = None
         | Some route \<Rightarrow>
             (\<exists>prm. matchRoute path = Some (route, prm) \<and>
                    map_of prm = map_of (rev (param_pairs route path)))"
proof -
  let ?P = "\<lambda>route. str_includes route (CHR '':'') \<and> pattern_matches route path"
  from assms have m: "matchRoute path = match_entries routes path"
    by (simp add: matchRoute_def js_get_def)
  show ?thesis
  proof (cases "find ?P (map fst routes)")
    case None
    then show ?thesis by (simp add: m match_entries_find)
  next
    case (Some route)
    let ?zs = "zip (split_on (CHR ''/'') route) (split_on (CHR ''/'') path)"
    from Some have "?P route" by (auto simp: find_Some_iff)
    then obtain prm where prm: "match_parts ?zs [] = Some prm"
      using match_parts_Some_iff [of ?zs "[]"] by (auto simp: pattern_matches_def Let_def)
    from match_parts_map [OF prm] have "map_of prm = map_of (rev (param_pairs route path))"
      by (simp add: param_pairs_def)
    with Some prm show ?thesis by (simp add: m match_entries_find)
  qed
qed

text \<open>
  The paths that the router resolves start with a slash (\<open>_navigate\<close> adds it), so
  they are never the name of an inherited property.
\<close>

lemma slash_not_inherited: "startsWith path (CHR ''/'') \<Longrightarrow> path \<notin> set object_prototype_keys"
  by (cases path) (auto simp: object_prototype_keys_def)

text \<open>
  Claim C9. Route matching: a path that is a key of the route table resolves to that
  entry with no parameters; any other path (not the name of a property that every
  object inherits) resolves to the first pattern of the table, in insertion order,
  that has the same number of segments and equal non-parameter segments, with the
  parameter values collected in a map, and to nothing when there is no such
  pattern. \<open>/personal/student/:id\<close> matches \<open>/personal/student/42\<close> with
  \<open>id = 42\<close> and does not match \<open>/personal/student/42/extra\<close>.
\<close>

theorem matchRoute_resolution:
  "(map_of routes path = Some fl \<longrightarrow> matchRoute path = Some (path, []))
   \<and> (map_of routes path = None \<and> path \<notin> set object_prototype_keys \<longrightarrow>
        (case find (\<lambda>route. str_includes route (CHR '':'') \<and> pattern_matches route path)
                (map fst routes) of
           None \<Rightarrow> matchRoute path = None
         | Some route \<Rightarrow>
             (\<exists>prm. matchRoute path = Some (route, prm) \<and>
                    map_of prm = map_of (rev (param_pairs route path)))))
   \<and> matchRoute ''/personal/student/42'' = Some (''/personal/student/:id'', [(''id'', ''42'')])
   \<and> matchRoute ''/personal/student/42/extra'' = None"
proof -
  have ex1: "matchRoute ''/personal/student/42'' = Some (''/personal/student/:id'', [(''id'', ''42'')])"
    by (simp add: matchRoute_def js_get_def routes_def object_prototype_keys_def str_includes_def)
  have ex2: "matchRoute ''/personal/student/42/extra'' = None"
    by (simp add: matchRoute_def js_get_def routes_def object_prototype_keys_def str_includes_def)
  show ?thesis
    using matchRoute_exact [of path fl] matchRoute_pattern [of path] ex1 ex2 by blast
qed

theorem matchRoute_resolution_witness:
  "map_of routes ''/login'' = Some ''pages/login.html''
   \<and> matchRoute ''/login'' = Some (''/login'', [])
   \<and> map_of routes ''/personal/volume/7'' = None
   \<and> ''/personal/volume/7'' \<notin> set object_prototype_keys
   \<and> find (\<lambda>route. str_includes route (CHR '':'') \<and> pattern_matches route ''/personal/volume/7'')
        (map fst routes) = Some ''/personal/volume/:id''
   \<and> (\<exists>prm. matchRoute ''/personal/volume/7'' = Some (''/personal/volume/:id'', prm) \<and>
             map_of prm = map_of (rev (param_pairs ''/personal/volume/:id'' ''/personal/volume/7'')))"
proof -
  have h1: "map_of routes ''/login'' = Some ''pages/login.html''"
    by (simp add: routes_def)
  have h2: "map_of routes ''/personal/volume/7'' = None"
    by (simp add: routes_def)
  have h3: "''/personal/volume/7'' \<notin> set object_prototype_keys"
    by (simp add: object_prototype_keys_def)
  have h4: "find (\<lambda>route. str_includes route (CHR '':'') \<and> pattern_matches route ''/personal/volume/7'')
        (map fst routes) = Some ''/personal/volume/:id''"
    by (simp add: routes_def str_includes_def pattern_matches_def is_param_def)
  from matchRoute_resolution [of "''/login''" "''pages/login.html''"] h1
  have c1: "matchRoute ''/login'' = Some (''/login'', [])" by blast
  from matchRoute_resolution [of "''/personal/volume/7''"] h2 h3 h4
  have c2: "\<exists>prm. matchRoute ''/personal/volume/7'' = Some (''/personal/volume/:id'', prm) \<and>
             map_of prm = map_of (rev (param_pairs ''/personal/volume/:id'' ''/personal/volume/7''))"
    by simp
  from h1 h2 h3 h4 c1 c2 show ?thesis by blast
qed

section \<open>The session that the router reads (auth.js, getters)\<close>

text \<open>
  \<open>currentUser\<close> is the identity (here its uid) or null; \<open>currentUserType\<close> is the
  role string of the profile record or null.
\<close>

record session =
  currentUser :: "string option"
  currentUserType :: "string option"

definition isAuthenticated :: "session \<Rightarrow> bool" where
  "isAuthenticated s = (currentUser s \<noteq> None)"

definition getCurrentUserType :: "session \<Rightarrow> string option" where
  "getCurrentUserType s = currentUserType s"

section \<open>Navigation (router.js: navigate, its helper for one path, and loadPage)\<close>

text \<open>
  The router's fields, the browser's location hash, whether the document has the
  \<open>#app\<close> container, the session of the auth manager, and what is needed to follow
  the asynchronous calls: the activations of \<open>_navigate\<close> that are suspended at an
  \<open>await\<close> on something still pending; the queue of microtasks, which are the
  continuations of an \<open>await\<close> on a call that has already returned; the page loads
  that were started without being awaited; and a trace of what has run.

  An activation of \<open>_navigate\<close> stands at \<open>await this.waitForAuth()\<close>, at
  \<open>await this.loadPage(path)\<close> while the load is going on, or at the same \<open>await\<close>
  when \<open>loadPage\<close> has returned without suspending. In the last case what follows
  the \<open>await\<close> is a microtask, and so is the next pass of a loop of \<open>navigate\<close> that
  stands at \<open>await this._navigate(nextPath)\<close> when that activation has ended.
\<close>

datatype suspended = AwaitAuth string | AwaitLoad string | AwaitReturned string

datatype micro = NextPass | LoadReturned string

datatype obs = Begin string | End string | LoadPage string

record world =
  authReady :: bool
  currentPath :: "string option"
  navigationQueue :: "string list"
  isNavigating :: bool
  locationHash :: string
  appContainer :: bool
  routeParams :: params
  authSession :: session
  inflight :: "suspended list"
  microqueue :: "micro list"
  detachedLoads :: nat
  trace :: "obs list"

definition log :: "obs \<Rightarrow> world \<Rightarrow> world" where
  "log e w = w\<lparr>trace := trace w @ [e]\<rparr>"

text \<open>
  \<open>loadPage\<close> up to its first \<open>await\<close>. A path that matches no route starts
  \<open>loadPage('/login')\<close> without awaiting it and returns; the load that it started
  goes on detached. A path that matches stores the parameters and suspends at the
  fetch of the page. All the later steps of a load (injecting the page, running
  its scripts) are one suspension here.
\<close>

datatype load_status = Fetching | Returned

lemma matchRoute_login: "matchRoute ''/login'' = Some (''/login'', [])"
  by (simp add: matchRoute_def js_get_def routes_def)

function loadPage :: "string \<Rightarrow> world \<Rightarrow> world \<times> load_status" where
  "loadPage path w =
     (case matchRoute path of
        None \<Rightarrow>
          (case loadPage ''/login'' (log (LoadPage path) w) of
             (w', Fetching) \<Rightarrow> (w'\<lparr>detachedLoads := Suc (detachedLoads w')\<rparr>, Returned)
           | (w', Returned) \<Rightarrow> (w', Returned))
      | Some (route, ps) \<Rightarrow> ((log (LoadPage path) w)\<lparr>routeParams := ps\<rparr>, Fetching))"
  by pat_completeness auto
termination
  by (relation "measure (\<lambda>(path, w). if matchRoute path = None then 1 else 0)")
     (auto simp: matchRoute_login)

declare loadPage.simps [simp del]

text \<open>The prefix that \<open>_navigate\<close> adds to a path without a leading slash.\<close>

definition with_leading_slash :: "string \<Rightarrow> string" where
  "with_leading_slash path = (if startsWith path (CHR ''/'') then path else CHR ''/'' # path)"

definition redirectPath :: "string option \<Rightarrow> string" where
  "redirectPath userType =
     (if userType = Some ''personal'' then ''/personal/dashboard'' else ''/student/dashboard'')"

text \<open>\<open>currentUserType !== requiredType\<close> and the truthiness of \<open>currentUserType\<close>.\<close>

fun strict_eq :: "string option \<Rightarrow> jsval option \<Rightarrow> bool" where
  "strict_eq None None = True"
| "strict_eq (Some s) (Some (JString t)) = (s = t)"
| "strict_eq _ _ = False"

fun truthy_str :: "string option \<Rightarrow> bool" where
  "truthy_str None = False"
| "truthy_str (Some s) = (s \<noteq> [])"

definition redirect :: "string \<Rightarrow> world \<Rightarrow> world" where
  "redirect target w = w\<lparr>locationHash := CHR ''#'' # target, isNavigating := False\<rparr>"

definition finish :: "string \<Rightarrow> world \<Rightarrow> world" where
  "finish path w = w\<lparr>currentPath := Some path, isNavigating := False\<rparr>"

text \<open>
  \<open>_navigate\<close> from the reading of the session to the call of \<open>loadPage\<close>
  (router.js lines 181 to 232). The result says at which \<open>await\<close> the activation
  stands; when it stands at none, it has run to its end and the busy flag is
  cleared.
\<close>

definition navigate_checks :: "string \<Rightarrow> world \<Rightarrow> world \<times> suspended option" where
  "navigate_checks path w =
     (let requiredType = getRequiredType path;
          isAuth = isAuthenticated (authSession w);
          userType = getCurrentUserType (authSession w)
      in if truthy requiredType \<and> \<not> isAuth then (redirect ''/login'' w, None)
         else if truthy requiredType \<and> \<not> strict_eq userType requiredType
                 \<and> path \<noteq> redirectPath userType
              then (redirect (redirectPath userType) w, None)
         else if path \<in> set publicRoutes \<and> isAuth \<and> truthy_str userType
                 \<and> path \<noteq> redirectPath userType
              then (redirect (redirectPath userType) w, None)
         else if currentPath w \<noteq> Some path
              then (case loadPage path w of
                      (w', Fetching) \<Rightarrow> (w', Some (AwaitLoad path))
                    | (w', Returned) \<Rightarrow> (w', Some (AwaitReturned path)))
         else (w\<lparr>isNavigating := False\<rparr>, None))"

text \<open>
  \<open>_navigate\<close> from its start: it sets the busy flag, normalises the path and, when
  the session is not ready yet, suspends in \<open>waitForAuth\<close>.
\<close>

definition navigate_start :: "string \<Rightarrow> world \<Rightarrow> world \<times> suspended option" where
  "navigate_start path0 w =
     (let w1 = log (Begin path0) (w\<lparr>isNavigating := True\<rparr>);
          path = with_leading_slash path0
      in if \<not> authReady w1 then (w1, Some (AwaitAuth path))
         else navigate_checks path w1)"

text \<open>
  A suspended activation goes on when what it awaits settles. \<open>waitForAuth\<close> always
  resolves (at the latest by its timeout) and sets \<open>authReady\<close>. A load ends in one
  of three ways: the fetch failed (\<open>ok\<close> is false) and the error panel is shown;
  the fetch succeeded but the document has no \<open>#app\<close> container, and \<open>loadPage\<close>
  returns early (router.js lines 264 to 267); or the page is injected and the
  location hash is set to the path when it differs. Only the last writes the
  hash. Then \<open>_navigate\<close> stores the path and clears the busy flag.
\<close>

definition sync_hash :: "string \<Rightarrow> bool \<Rightarrow> world \<Rightarrow> world" where
  "sync_hash path ok w =
     (if \<not> ok then w
      else if \<not> appContainer w then w
      else if locationHash w \<noteq> CHR ''#'' # path then w\<lparr>locationHash := CHR ''#'' # path\<rparr>
      else w)"

fun resume :: "suspended \<Rightarrow> bool \<Rightarrow> world \<Rightarrow> world \<times> suspended option" where
  "resume (AwaitAuth path) ok w = navigate_checks path (w\<lparr>authReady := True\<rparr>)"
| "resume (AwaitLoad path) ok w = (finish path (sync_hash path ok w), None)"
| "resume (AwaitReturned path) ok w = (finish path w, None)"

fun suspended_path :: "suspended \<Rightarrow> string" where
  "suspended_path (AwaitAuth path) = path"
| "suspended_path (AwaitLoad path) = path"
| "suspended_path (AwaitReturned path) = path"

text \<open>Where an activation waits: among the suspended ones, or in the microtask queue.\<close>

fun suspend :: "suspended \<Rightarrow> world \<Rightarrow> world" where
  "suspend (AwaitAuth path) w = w\<lparr>inflight := inflight w @ [AwaitAuth path]\<rparr>"
| "suspend (AwaitLoad path) w = w\<lparr>inflight := inflight w @ [AwaitLoad path]\<rparr>"
| "suspend (AwaitReturned path) w = w\<lparr>microqueue := microqueue w @ [LoadReturned path]\<rparr>"

lemma loadPage_matched:
  "matchRoute path = Some (route, ps) \<Longrightarrow>
   loadPage path w = ((log (LoadPage path) w)\<lparr>routeParams := ps\<rparr>, Fetching)"
  by (simp add: loadPage.simps)

lemma loadPage_unmatched:
  "matchRoute path = None \<Longrightarrow>
   loadPage path w =
     ((log (LoadPage ''/login'') (log (LoadPage path) w))
        \<lparr>routeParams := [], detachedLoads := Suc (detachedLoads w)\<rparr>, Returned)"
  by (simp add: loadPage.simps [of path] loadPage_matched [OF matchRoute_login] log_def)

lemma loadPage_queue: "navigationQueue (fst (loadPage path w)) = navigationQueue w"
  by (cases "matchRoute path") (auto simp: loadPage_matched loadPage_unmatched log_def)

lemma navigate_checks_queue:
  "navigationQueue (fst (navigate_checks path w)) = navigationQueue w"
  using loadPage_queue [of path w]
  by (auto simp: navigate_checks_def Let_def redirect_def finish_def
           split: prod.splits load_status.splits)

lemma navigate_start_queue:
  "navigationQueue (fst (navigate_start path w)) = navigationQueue w"
  by (simp add: navigate_start_def Let_def navigate_checks_queue log_def)

lemma loadPage_microqueue: "microqueue (fst (loadPage path w)) = microqueue w"
  by (cases "matchRoute path") (auto simp: loadPage_matched loadPage_unmatched log_def)

lemma navigate_checks_microqueue: "microqueue (fst (navigate_checks path w)) = microqueue w"
  using loadPage_microqueue [of path w]
  by (auto simp: navigate_checks_def Let_def redirect_def
           split: prod.splits load_status.splits)

lemma navigate_start_microqueue: "microqueue (fst (navigate_start path w)) = microqueue w"
  by (simp add: navigate_start_def Let_def navigate_checks_microqueue log_def)

text \<open>
  One pass of the loop of \<open>navigate\<close> (router.js lines 161 to 164), by a loop that
  starts or goes on: on the empty queue the loop ends; otherwise it takes the head
  of the queue and calls \<open>_navigate\<close> on it, which runs up to its first pending
  \<open>await\<close> or to its end. Either way the loop then stands at its own \<open>await\<close>,
  which always yields: behind an activation that waits, until that has ended, or
  behind an activation that has ended already, with the busy flag cleared; then
  the next pass of the loop is a microtask.
\<close>

definition loop_turn :: "world \<Rightarrow> world" where
  "loop_turn w =
     (case navigationQueue w of
        [] \<Rightarrow> w
      | nextPath # rest \<Rightarrow>
          (case navigate_start nextPath (w\<lparr>navigationQueue := rest\<rparr>) of
             (w', Some s) \<Rightarrow> suspend s w'
           | (w', None) \<Rightarrow>
               (log (End (with_leading_slash nextPath)) w')
                 \<lparr>microqueue := microqueue w' @ [NextPass]\<rparr>))"

text \<open>
  \<open>navigate\<close> (router.js lines 146 to 165), called with a string, up to the point
  where it returns control to its caller: the request is dropped when the router
  is busy and the path is \<open>currentPath\<close>; otherwise it is appended unless it is
  the tail of the queue; a busy router returns, an idle one makes the first pass
  of the loop.
\<close>

definition navigate :: "string \<Rightarrow> world \<Rightarrow> world" where
  "navigate path w =
     (if isNavigating w \<and> currentPath w = Some path then w
      else let w1 = (if navigationQueue w = [] \<or> last (navigationQueue w) \<noteq> path
                     then w\<lparr>navigationQueue := navigationQueue w @ [path]\<rparr> else w)
           in if isNavigating w1 then w1 else loop_turn w1)"

text \<open>
  The microtasks that follow a task, oldest first. The next pass of a loop is
  \<open>loop_turn\<close>. After a \<open>loadPage\<close> that returned without suspending, \<open>_navigate\<close>
  stores the path and clears the busy flag, and the loop behind it goes on with
  a microtask of its own. This ends, because a pass either ends a loop or takes a
  path off the queue.
\<close>

fun weight :: "micro \<Rightarrow> nat" where
  "weight NextPass = 1"
| "weight (LoadReturned path) = 2"

lemma suspend_queue [simp]: "navigationQueue (suspend s w) = navigationQueue w"
  by (cases s) simp_all

lemma suspend_weight:
  "sum_list (map weight (microqueue (suspend s w))) \<le> sum_list (map weight (microqueue w)) + 2"
  by (cases s) simp_all

lemma loop_turn_measure:
  "3 * length (navigationQueue (loop_turn (w\<lparr>microqueue := rest\<rparr>)))
     + sum_list (map weight (microqueue (loop_turn (w\<lparr>microqueue := rest\<rparr>))))
   < Suc (3 * length (navigationQueue w) + sum_list (map weight rest))"
proof (cases "navigationQueue w")
  case Nil
  then show ?thesis by (simp add: loop_turn_def)
next
  case (Cons p more)
  let ?v = "w\<lparr>microqueue := rest, navigationQueue := more\<rparr>"
  obtain w' r where ns: "navigate_start p ?v = (w', r)" by (cases "navigate_start p ?v")
  from navigate_start_queue [of p ?v] navigate_start_microqueue [of p ?v] ns
  have q: "navigationQueue w' = more" "microqueue w' = rest" by simp_all
  show ?thesis
  proof (cases r)
    case None
    with Cons ns q show ?thesis by (simp add: loop_turn_def log_def)
  next
    case (Some s)
    with Cons ns q suspend_weight [of s w'] show ?thesis by (simp add: loop_turn_def)
  qed
qed

function microtasks :: "world \<Rightarrow> world" where
  "microtasks w =
     (case microqueue w of
        [] \<Rightarrow> w
      | NextPass # rest \<Rightarrow> microtasks (loop_turn (w\<lparr>microqueue := rest\<rparr>))
      | LoadReturned path # rest \<Rightarrow>
          microtasks ((log (End path) (finish path w))\<lparr>microqueue := rest @ [NextPass]\<rparr>))"
  by pat_completeness auto
termination
proof (relation "measure (\<lambda>w. 3 * length (navigationQueue w)
                              + sum_list (map weight (microqueue w)))")
  show "wf (measure (\<lambda>w. 3 * length (navigationQueue w)
                          + sum_list (map weight (microqueue w))))" by simp
next
  fix w :: world and m rest
  assume "microqueue w = m # rest" and "m = NextPass"
  with loop_turn_measure [where w = w and rest = rest]
  show "(loop_turn (w\<lparr>microqueue := rest\<rparr>), w)
      \<in> measure (\<lambda>w. 3 * length (navigationQueue w) + sum_list (map weight (microqueue w)))"
    by simp
next
  fix w :: world and m rest path
  assume "microqueue w = m # rest" and "m = LoadReturned path"
  then show "((log (End path) (finish path w))\<lparr>microqueue := rest @ [NextPass]\<rparr>, w)
      \<in> measure (\<lambda>w. 3 * length (navigationQueue w) + sum_list (map weight (microqueue w)))"
    by (simp add: log_def finish_def)
qed

declare microtasks.simps [simp del]

text \<open>
  A task is what runs from the event loop until control returns to it: a call of
  \<open>navigate\<close> (from a page or a \<open>goTo\<close> method), or several calls one after the
  other in the same synchronous block; a \<open>hashchange\<close> or \<open>popstate\<close> event, which
  navigates to the hash without its first character once \<open>authReady\<close> is set; the
  settling of what a suspended activation awaits (with the outcome of the fetch),
  after which the activation goes on; the end of a detached load of the login
  page; a change of the session by the auth manager. After a task that can leave
  microtasks, these run before the next task.
\<close>

datatype event =
    Navigate string
  | NavigateBlock "string list"
  | HashChange
  | Settle nat bool
  | DetachedDone bool
  | SessionChange session

definition settle :: "nat \<Rightarrow> bool \<Rightarrow> world \<Rightarrow> world" where
  "settle i ok w =
     (if i < length (inflight w) then
        (case resume (inflight w ! i) ok
                (w\<lparr>inflight := take i (inflight w) @ drop (Suc i) (inflight w)\<rparr>) of
           (w', Some s) \<Rightarrow> suspend s w'
         | (w', None) \<Rightarrow>
             (log (End (suspended_path (inflight w ! i))) w')
               \<lparr>microqueue := microqueue w' @ [NextPass]\<rparr>)
      else w)"

fun step :: "event \<Rightarrow> world \<Rightarrow> world" where
  "step (Navigate path) w = microtasks (navigate path w)"
| "step (NavigateBlock paths) w = microtasks (foldl (\<lambda>v path. navigate path v) w paths)"
| "step HashChange w =
     (if authReady w then microtasks (navigate (drop 1 (locationHash w)) w) else w)"
| "step (Settle i ok) w = microtasks (settle i ok w)"
| "step (DetachedDone ok) w =
     (if detachedLoads w = 0 then w
      else sync_hash ''/login'' ok (w\<lparr>detachedLoads := detachedLoads w - 1\<rparr>))"
| "step (SessionChange s) w = w\<lparr>authSession := s\<rparr>"

fun run :: "event list \<Rightarrow> world \<Rightarrow> world" where
  "run [] w = w"
| "run (e # es) w = run es (step e w)"

definition initial :: world where
  "initial =
     \<lparr>authReady = False, currentPath = None, navigationQueue = [], isNavigating = False,
      locationHash = [], appContainer = True, routeParams = [],
      authSession = \<lparr>currentUser = None, currentUserType = None\<rparr>,
      inflight = [], microqueue = [], detachedLoads = 0, trace = []\<rparr>"

section \<open>Facts about the loop and the tables\<close>

text \<open>The paths for which \<open>loadPage\<close> was called, in order.\<close>

definition loads :: "obs list \<Rightarrow> string list" where
  "loads tr = concat (map (\<lambda>e. case e of LoadPage q \<Rightarrow> [q] | _ \<Rightarrow> []) tr)"

lemma loads_append [simp]: "loads (xs @ ys) = loads xs @ loads ys"
  by (simp add: loads_def)

lemma loads_simps [simp]:
  "loads [] = []" "loads (Begin p # tr) = loads tr" "loads (End p # tr) = loads tr"
  "loads (LoadPage p # tr) = p # loads tr"
  by (simp_all add: loads_def)

lemma queue_reset: "navigationQueue w = [] \<Longrightarrow> w\<lparr>navigationQueue := []\<rparr> = w"
  by (cases w) simp

lemma microtasks_none: "microqueue w = [] \<Longrightarrow> microtasks w = w"
  by (simp add: microtasks.simps [of w])

lemma microtasks_next:
  "microqueue w = NextPass # rest \<Longrightarrow> microtasks w = microtasks (loop_turn (w\<lparr>microqueue := rest\<rparr>))"
  by (simp add: microtasks.simps [of w])

lemma microtasks_returned:
  "microqueue w = LoadReturned path # rest \<Longrightarrow>
   microtasks w = microtasks ((log (End path) (finish path w))\<lparr>microqueue := rest @ [NextPass]\<rparr>)"
  by (simp add: microtasks.simps [of w])

lemma loop_turn_empty: "navigationQueue w = [] \<Longrightarrow> loop_turn w = w"
  by (simp add: loop_turn_def)

text \<open>
  With nothing queued, the microtasks start nothing: the loops end one after the
  other, and the activations behind a \<open>loadPage\<close> that returned end too.
\<close>

lemma microtasks_empty_queue:
  "navigationQueue w = [] \<Longrightarrow>
     navigationQueue (microtasks w) = [] \<and> microqueue (microtasks w) = []
     \<and> inflight (microtasks w) = inflight w \<and> loads (trace (microtasks w)) = loads (trace w)
     \<and> authSession (microtasks w) = authSession w \<and> authReady (microtasks w) = authReady w
     \<and> appContainer (microtasks w) = appContainer w
     \<and> locationHash (microtasks w) = locationHash w"
proof (induction w rule: microtasks.induct)
  case (1 w)
  show ?case
  proof (cases "microqueue w")
    case Nil
    with 1(3) show ?thesis by (simp add: microtasks_none)
  next
    case (Cons m rest)
    show ?thesis
    proof (cases m)
      case NextPass
      let ?v = "w\<lparr>microqueue := rest\<rparr>"
      from 1(3) have e: "loop_turn ?v = ?v" by (simp add: loop_turn_empty)
      from 1(1) [OF Cons NextPass] 1(3) e Cons NextPass show ?thesis
        by (simp add: microtasks_next)
    next
      case (LoadReturned path)
      let ?v = "(log (End path) (finish path w))\<lparr>microqueue := rest @ [NextPass]\<rparr>"
      from 1(3) have "navigationQueue ?v = []" by (simp add: log_def finish_def)
      from 1(2) [OF Cons LoadReturned this] Cons LoadReturned show ?thesis
        by (simp add: microtasks_returned log_def finish_def)
    qed
  qed
qed

lemma microtasks_one_pass:
  "navigationQueue w = [] \<Longrightarrow> microqueue w = [NextPass] \<Longrightarrow> microtasks w = w\<lparr>microqueue := []\<rparr>"
  by (simp add: microtasks_next loop_turn_empty microtasks_none)

lemma sync_hash_fields [simp]:
  "currentPath (sync_hash path ok w) = currentPath w"
  "navigationQueue (sync_hash path ok w) = navigationQueue w"
  "isNavigating (sync_hash path ok w) = isNavigating w"
  "inflight (sync_hash path ok w) = inflight w"
  "microqueue (sync_hash path ok w) = microqueue w"
  "detachedLoads (sync_hash path ok w) = detachedLoads w"
  "trace (sync_hash path ok w) = trace w"
  "authSession (sync_hash path ok w) = authSession w"
  "authReady (sync_hash path ok w) = authReady w"
  by (simp_all add: sync_hash_def)

text \<open>The end of the only suspended activation, when it awaits a page load.\<close>

lemma settle_load:
  "inflight w = [AwaitLoad path] \<Longrightarrow>
   settle 0 ok w =
     (log (End path) (finish path (sync_hash path ok (w\<lparr>inflight := []\<rparr>))))
       \<lparr>microqueue := microqueue w @ [NextPass]\<rparr>"
  by (simp add: settle_def finish_def log_def)

text \<open>On an idle router with an empty queue, \<open>navigate\<close> runs \<open>_navigate\<close> at once.\<close>

lemma navigate_idle:
  assumes "\<not> isNavigating w" and "navigationQueue w = []"
  shows "navigate p w =
     (case navigate_start p w of
        (w', Some s) \<Rightarrow> suspend s w'
      | (w', None) \<Rightarrow>
          (log (End (with_leading_slash p)) w')\<lparr>microqueue := microqueue w' @ [NextPass]\<rparr>)"
  using assms by (simp add: navigate_def loop_turn_def queue_reset)

lemma required_dashboards:
  "getRequiredType ''/personal/dashboard'' = Some (JString ''personal'')"
  "getRequiredType ''/student/dashboard'' = Some (JString ''student'')"
  by (simp_all add: getRequiredType_def js_get_def protectedRoutes_def)

lemma public_cases:
  "path \<in> set publicRoutes \<Longrightarrow>
   path = ''/login'' \<or> path = ''/signup'' \<or> path = ''/'' \<or> path = ''/primeiro-acesso''"
  by (simp add: publicRoutes_def)

lemma required_login: "getRequiredType ''/login'' = None"
  by (simp add: getRequiredType_def js_get_def protectedRoutes_def
        object_prototype_keys_def str_includes_def)

lemma required_signup: "getRequiredType ''/signup'' = None"
  by (simp add: getRequiredType_def js_get_def protectedRoutes_def
        object_prototype_keys_def str_includes_def)

lemma required_root: "getRequiredType ''/'' = None"
  by (simp add: getRequiredType_def js_get_def protectedRoutes_def
        object_prototype_keys_def str_includes_def)

lemma required_primeiro_acesso: "getRequiredType ''/primeiro-acesso'' = None"
  by (simp add: getRequiredType_def js_get_def protectedRoutes_def
        object_prototype_keys_def str_includes_def)

lemma public_not_protected: "path \<in> set publicRoutes \<Longrightarrow> getRequiredType path = None"
  using public_cases [of path] required_login required_signup required_root
    required_primeiro_acesso by blast

lemma matchRoute_signup: "matchRoute ''/signup'' = Some (''/signup'', [])"
  by (simp add: matchRoute_def js_get_def routes_def)

lemma matchRoute_root: "matchRoute ''/'' = Some (''/'', [])"
  by (simp add: matchRoute_def js_get_def routes_def)

lemma matchRoute_primeiro_acesso:
  "matchRoute ''/primeiro-acesso'' = Some (''/primeiro-acesso'', [])"
  by (simp add: matchRoute_def js_get_def routes_def)

lemma matchRoute_student_dashboard:
  "matchRoute ''/student/dashboard'' = Some (''/student/dashboard'', [])"
  by (simp add: matchRoute_def js_get_def routes_def)

lemma public_matched: "path \<in> set publicRoutes \<Longrightarrow> matchRoute path = Some (path, [])"
  using public_cases [of path] matchRoute_login matchRoute_signup matchRoute_root
    matchRoute_primeiro_acesso by blast

section \<open>The guards applied to one path\<close>

text \<open>
  What a run of the guards can be seen to do. A redirect writes the target to the
  location hash and ends the activation: \<open>loadPage\<close> is called for nothing, the
  current path stays, the busy flag is cleared. A load calls \<open>loadPage\<close> for the
  path, leaves the hash alone and suspends the activation until the load is done.
  The first two predicates are about one activation of \<open>_navigate\<close>, the other two
  about a call of \<open>navigate\<close> on a router that is ready, not busy and has nothing
  queued.
\<close>

definition stops_with_redirect :: "string \<Rightarrow> world \<Rightarrow> world \<times> suspended option \<Rightarrow> bool" where
  "stops_with_redirect target w r \<longleftrightarrow>
     snd r = None \<and> locationHash (fst r) = CHR ''#'' # target
     \<and> loads (trace (fst r)) = loads (trace w) \<and> currentPath (fst r) = currentPath w
     \<and> detachedLoads (fst r) = detachedLoads w \<and> \<not> isNavigating (fst r)"

definition redirected :: "string \<Rightarrow> world \<Rightarrow> world \<Rightarrow> bool" where
  "redirected target w w' \<longleftrightarrow>
     locationHash w' = CHR ''#'' # target
     \<and> loads (trace w') = loads (trace w) \<and> currentPath w' = currentPath w
     \<and> detachedLoads w' = detachedLoads w \<and> inflight w' = inflight w \<and> \<not> isNavigating w'"

definition starts_load :: "string \<Rightarrow> world \<Rightarrow> world \<times> suspended option \<Rightarrow> bool" where
  "starts_load path w r \<longleftrightarrow>
     snd r = Some (AwaitLoad path) \<and> locationHash (fst r) = locationHash w
     \<and> loads (trace (fst r)) = loads (trace w) @ [path]"

definition load_started :: "string \<Rightarrow> world \<Rightarrow> world \<Rightarrow> bool" where
  "load_started path w w' \<longleftrightarrow>
     inflight w' = inflight w @ [AwaitLoad path] \<and> locationHash w' = locationHash w
     \<and> loads (trace w') = loads (trace w) @ [path]"

definition idle :: "world \<Rightarrow> bool" where
  "idle w \<longleftrightarrow> authReady w \<and> \<not> isNavigating w \<and> navigationQueue w = []"

text \<open>The dashboards of the two roles, in the specification's words.\<close>

fun canonical_dashboard :: "string \<Rightarrow> string option" where
  "canonical_dashboard role =
     (if role = ''personal'' then Some ''/personal/dashboard''
      else if role = ''student'' then Some ''/student/dashboard'' else None)"

lemma redirect_stops: "stops_with_redirect t w (redirect t w, None)"
  by (simp add: stops_with_redirect_def redirect_def)

lemma navigate_idle_redirect:
  assumes "idle w" and "navigate_checks (with_leading_slash p) (log (Begin p) (w\<lparr>isNavigating := True\<rparr>))
      = (redirect t (log (Begin p) (w\<lparr>isNavigating := True\<rparr>)), None)"
  shows "redirected t w (navigate p w)"
  using assms
  by (simp add: idle_def navigate_idle navigate_start_def Let_def log_def redirected_def redirect_def)

lemma checks_unauthenticated:
  assumes "truthy (getRequiredType path)" and "\<not> isAuthenticated (authSession w)"
  shows "navigate_checks path w = (redirect ''/login'' w, None)"
  using assms by (simp add: navigate_checks_def Let_def)

text \<open>
  Claim C1. When the path (with its leading slash) has a required role and the
  session is not authenticated, \<open>_navigate\<close> redirects to the login path and stops
  without calling \<open>loadPage\<close>; so does \<open>navigate\<close> called on an idle router.
\<close>

theorem unauthenticated_protected_redirects_to_login:
  assumes "truthy (getRequiredType (with_leading_slash p))"
    and "\<not> isAuthenticated (authSession w)"
  shows "stops_with_redirect ''/login'' w (navigate_checks (with_leading_slash p) w)
       \<and> (idle w \<longrightarrow> redirected ''/login'' w (navigate p w))"
proof -
  have "idle w \<Longrightarrow> redirected ''/login'' w (navigate p w)"
    using assms by (intro navigate_idle_redirect) (simp_all add: checks_unauthenticated log_def)
  then show ?thesis
    using assms by (simp add: checks_unauthenticated redirect_stops)
qed

lemma required_role_entries:
  "required_entries tbl path = Some (JString R) \<Longrightarrow> R \<in> snd ` set tbl"
  by (induction tbl path rule: required_entries.induct) (auto simp: Let_def split: if_splits)

lemma required_role_values:
  assumes "getRequiredType path = Some (JString R)"
  shows "R = ''personal'' \<or> R = ''student''"
proof -
  have "R \<in> snd ` set protectedRoutes"
  proof (cases "truthy (js_get protectedRoutes path)")
    case True
    with assms have "map_of protectedRoutes path = Some R"
      by (auto simp: getRequiredType_def js_get_def split: option.splits if_splits)
    then show ?thesis by (metis map_of_SomeD image_eqI snd_conv)
  next
    case False
    with assms show ?thesis by (simp add: getRequiredType_def required_role_entries)
  qed
  then show ?thesis by (auto simp: protectedRoutes_def)
qed

lemma dashboard_requires:
  "canonical_dashboard R' = Some d \<Longrightarrow> getRequiredType d = Some (JString R')"
  by (auto simp: required_dashboards split: if_splits)

lemma checks_wrong_role:
  assumes req: "getRequiredType path = Some (JString R)"
    and auth: "isAuthenticated (authSession w)"
    and role: "getCurrentUserType (authSession w) = Some R'"
    and dash: "canonical_dashboard R' = Some d"
    and diff: "R' \<noteq> R"
  shows "navigate_checks path w = (redirect d w, None)"
proof -
  from required_role_values [OF req] have t: "truthy (getRequiredType path)"
    by (auto simp: req)
  from dash have d: "d = redirectPath (Some R')"
    by (auto simp: redirectPath_def split: if_splits)
  have "path \<noteq> d"
  proof
    assume "path = d"
    with dashboard_requires [OF dash] req have "R = R'" by simp
    with diff show False by simp
  qed
  with t auth role diff d show ?thesis
    by (simp add: navigate_checks_def Let_def req)
qed

text \<open>
  Claim C2. When the path requires role \<open>R\<close> and the session is authenticated with
  a role \<open>R'\<close> that is personal or student and differs from \<open>R\<close>, \<open>_navigate\<close>
  redirects to the dashboard of \<open>R'\<close> and does not load the path. The path is
  never that dashboard here, because the dashboard of \<open>R'\<close> requires \<open>R'\<close>.
\<close>

theorem wrong_role_redirects_to_own_dashboard:
  assumes "getRequiredType (with_leading_slash p) = Some (JString R)"
    and "isAuthenticated (authSession w)"
    and "getCurrentUserType (authSession w) = Some R'"
    and "canonical_dashboard R' = Some d"
    and "R' \<noteq> R"
  shows "with_leading_slash p \<noteq> d
       \<and> stops_with_redirect d w (navigate_checks (with_leading_slash p) w)
       \<and> (idle w \<longrightarrow> redirected d w (navigate p w))"
proof -
  have ne: "with_leading_slash p \<noteq> d"
  proof
    assume "with_leading_slash p = d"
    with dashboard_requires [OF assms(4)] assms(1) have "R = R'" by simp
    with assms(5) show False by simp
  qed
  have "idle w \<Longrightarrow> redirected d w (navigate p w)"
    using assms by (intro navigate_idle_redirect) (simp_all add: checks_wrong_role log_def)
  then show ?thesis
    using assms ne by (simp add: checks_wrong_role redirect_stops)
qed


lemma navigate_idle_redirect_eq:
  assumes "idle w" and "navigate_checks (with_leading_slash p) (log (Begin p) (w\<lparr>isNavigating := True\<rparr>))
      = (redirect t (log (Begin p) (w\<lparr>isNavigating := True\<rparr>)), None)"
  shows "navigate p w =
     (log (End (with_leading_slash p)) (redirect t (log (Begin p) (w\<lparr>isNavigating := True\<rparr>))))
       \<lparr>microqueue := microqueue w @ [NextPass]\<rparr>"
  using assms
  by (simp add: idle_def navigate_idle navigate_start_def Let_def log_def redirect_def)

lemma checks_public_known_role:
  assumes pub: "path \<in> set publicRoutes"
    and auth: "isAuthenticated (authSession w)"
    and role: "getCurrentUserType (authSession w) = Some R'"
    and dash: "canonical_dashboard R' = Some d"
  shows "path \<noteq> d" and "navigate_checks path w = (redirect d w, None)"
proof -
  from dash have d: "d = redirectPath (Some R')" and ne: "R' \<noteq> []"
    by (auto simp: redirectPath_def split: if_splits)
  show "path \<noteq> d"
  proof
    assume "path = d"
    with dashboard_requires [OF dash] public_not_protected [OF pub] show False by simp
  qed
  with pub auth role d ne show "navigate_checks path w = (redirect d w, None)"
    by (simp add: navigate_checks_def Let_def public_not_protected)
qed

lemma checks_load:
  assumes "\<not> truthy (getRequiredType path) \<or> strict_eq (getCurrentUserType (authSession w)) (getRequiredType path)
           \<or> path = redirectPath (getCurrentUserType (authSession w))"
    and "path \<notin> set publicRoutes \<or> \<not> truthy_str (getCurrentUserType (authSession w))"
    and "isAuthenticated (authSession w)"
    and "matchRoute path = Some (route, ps)"
  shows "navigate_checks path w =
     (if currentPath w \<noteq> Some path
      then ((log (LoadPage path) w)\<lparr>routeParams := ps\<rparr>, Some (AwaitLoad path))
      else (w\<lparr>isNavigating := False\<rparr>, None))"
  using assms by (auto simp: navigate_checks_def Let_def loadPage_matched)

lemma navigate_idle_load:
  assumes "idle w" and "navigate_checks (with_leading_slash p) (log (Begin p) (w\<lparr>isNavigating := True\<rparr>))
      = ((log (LoadPage (with_leading_slash p)) (log (Begin p) (w\<lparr>isNavigating := True\<rparr>)))\<lparr>routeParams := ps\<rparr>,
         Some (AwaitLoad (with_leading_slash p)))"
  shows "navigate p w =
     (log (LoadPage (with_leading_slash p)) (log (Begin p) (w\<lparr>isNavigating := True\<rparr>)))
       \<lparr>routeParams := ps, inflight := inflight w @ [AwaitLoad (with_leading_slash p)]\<rparr>"
  using assms by (simp add: idle_def navigate_idle navigate_start_def Let_def log_def)

text \<open>
  Claim C3. On a public path with an authenticated session: when the role is
  personal or student, \<open>_navigate\<close> redirects to that role's dashboard (a public
  path is never a dashboard), and a second navigation to the same path redirects
  again; when the role is absent there is no redirect and the public page is
  loaded, or stays when it is the current page already.
\<close>

theorem public_route_with_session:
  assumes "with_leading_slash p \<in> set publicRoutes"
    and "isAuthenticated (authSession w)"
  shows "(getCurrentUserType (authSession w) = Some R' \<and> canonical_dashboard R' = Some d \<longrightarrow>
            with_leading_slash p \<noteq> d
          \<and> stops_with_redirect d w (navigate_checks (with_leading_slash p) w)
          \<and> (idle w \<longrightarrow> redirected d w (navigate p w)
                       \<and> redirected d w (navigate p (navigate p w))))
       \<and> (getCurrentUserType (authSession w) = None \<and> currentPath w \<noteq> Some (with_leading_slash p) \<longrightarrow>
            starts_load (with_leading_slash p) w (navigate_checks (with_leading_slash p) w)
          \<and> (idle w \<longrightarrow> load_started (with_leading_slash p) w (navigate p w)))
       \<and> (getCurrentUserType (authSession w) = None \<and> currentPath w = Some (with_leading_slash p) \<longrightarrow>
            navigate_checks (with_leading_slash p) w = (w\<lparr>isNavigating := False\<rparr>, None))"
proof (intro conjI impI)
  let ?path = "with_leading_slash p"
  let ?w1 = "log (Begin p) (w\<lparr>isNavigating := True\<rparr>)"
  {
    assume r: "getCurrentUserType (authSession w) = Some R' \<and> canonical_dashboard R' = Some d"
    show "?path \<noteq> d" using checks_public_known_role(1) [OF assms] r by blast
    show "stops_with_redirect d w (navigate_checks ?path w)"
      using checks_public_known_role(2) [OF assms] r by (simp add: redirect_stops)
    assume i: "idle w"
    have c: "\<And>v. authSession v = authSession w \<Longrightarrow> navigate_checks ?path v = (redirect d v, None)"
      using checks_public_known_role(2) [OF assms(1)] assms(2) r by simp
    have n1: "navigate p w = (log (End ?path) (redirect d ?w1))\<lparr>microqueue := microqueue w @ [NextPass]\<rparr>"
      using i by (intro navigate_idle_redirect_eq) (simp_all add: c log_def)
    show "redirected d w (navigate p w)"
      by (simp add: n1 redirected_def redirect_def log_def)
    let ?v = "navigate p w"
    have iv: "idle ?v" using i by (simp add: n1 idle_def redirect_def log_def)
    have n2: "navigate p ?v =
        (log (End ?path) (redirect d (log (Begin p) (?v\<lparr>isNavigating := True\<rparr>))))
          \<lparr>microqueue := microqueue ?v @ [NextPass]\<rparr>"
      using iv by (intro navigate_idle_redirect_eq) (simp_all add: c n1 log_def redirect_def)
    show "redirected d w (navigate p (navigate p w))"
      by (simp add: n2) (simp add: n1 redirected_def redirect_def log_def)
  }
  {
    assume r: "getCurrentUserType (authSession w) = None \<and> currentPath w \<noteq> Some ?path"
    have c: "\<And>v. authSession v = authSession w \<Longrightarrow> currentPath v = currentPath w \<Longrightarrow>
        navigate_checks ?path v = ((log (LoadPage ?path) v)\<lparr>routeParams := []\<rparr>, Some (AwaitLoad ?path))"
      using r assms public_matched [OF assms(1)] public_not_protected [OF assms(1)]
      by (simp add: checks_load [where route = ?path and ps = "[]"])
    show "starts_load ?path w (navigate_checks ?path w)"
      by (simp add: c starts_load_def log_def)
    assume i: "idle w"
    have "navigate p w = (log (LoadPage ?path) ?w1)\<lparr>routeParams := [], inflight := inflight w @ [AwaitLoad ?path]\<rparr>"
      using i by (intro navigate_idle_load) (simp_all add: c log_def)
    then show "load_started ?path w (navigate p w)"
      by (simp add: load_started_def log_def)
  }
  {
    assume r: "getCurrentUserType (authSession w) = None \<and> currentPath w = Some ?path"
    then show "navigate_checks ?path w = (w\<lparr>isNavigating := False\<rparr>, None)"
      using assms public_matched [OF assms(1)] public_not_protected [OF assms(1)]
      by (simp add: checks_load [where route = ?path and ps = "[]"])
  }
qed


text \<open>
  Claim C10. With an authenticated session whose role is absent, navigating to
  \<open>/student/dashboard\<close> (which requires the role student) loads that page: the
  redirect target computed for every role other than personal, the absent one
  included, is \<open>/student/dashboard\<close> itself, so the redirect is suppressed and the
  page load is reached. When the load settles the page is the current path.
\<close>

theorem absent_role_loads_student_dashboard:
  assumes "isAuthenticated (authSession w)"
    and "getCurrentUserType (authSession w) = None"
  shows "getRequiredType ''/student/dashboard'' = Some (JString ''student'')
       \<and> (\<forall>role. role \<noteq> Some ''personal'' \<longrightarrow> redirectPath role = ''/student/dashboard'')
       \<and> (currentPath w = Some ''/student/dashboard'' \<longrightarrow>
            navigate_checks ''/student/dashboard'' w = (w\<lparr>isNavigating := False\<rparr>, None))
       \<and> (currentPath w \<noteq> Some ''/student/dashboard'' \<longrightarrow>
            starts_load ''/student/dashboard'' w (navigate_checks ''/student/dashboard'' w)
          \<and> (idle w \<longrightarrow> load_started ''/student/dashboard'' w (navigate ''/student/dashboard'' w))
          \<and> (idle w \<and> inflight w = [] \<longrightarrow>
                currentPath (run [Navigate ''/student/dashboard'', Settle 0 ok] w)
                  = Some ''/student/dashboard''
              \<and> loads (trace (run [Navigate ''/student/dashboard'', Settle 0 ok] w))
                  = loads (trace w) @ [''/student/dashboard'']))"
proof -
  let ?sd = "''/student/dashboard''"
  let ?w1 = "log (Begin ?sd) (w\<lparr>isNavigating := True\<rparr>)"
  have sl: "with_leading_slash ?sd = ?sd" by (simp add: with_leading_slash_def)
  have rp: "redirectPath None = ?sd" by (simp add: redirectPath_def)
  have c: "\<And>v. authSession v = authSession w \<Longrightarrow>
      navigate_checks ?sd v =
        (if currentPath v \<noteq> Some ?sd
         then ((log (LoadPage ?sd) v)\<lparr>routeParams := []\<rparr>, Some (AwaitLoad ?sd))
         else (v\<lparr>isNavigating := False\<rparr>, None))"
    using assms
    by (intro checks_load [where route = ?sd]) (simp_all add: rp matchRoute_student_dashboard)
  have n: "idle w \<Longrightarrow> currentPath w \<noteq> Some ?sd \<Longrightarrow>
      navigate ?sd w = (log (LoadPage ?sd) ?w1)\<lparr>routeParams := [], inflight := inflight w @ [AwaitLoad ?sd]\<rparr>"
    using navigate_idle_load [of w ?sd "[]"] by (simp add: sl c log_def)
  have r: "currentPath (run [Navigate ?sd, Settle 0 ok] w) = Some ?sd
      \<and> loads (trace (run [Navigate ?sd, Settle 0 ok] w)) = loads (trace w) @ [?sd]"
    if i: "idle w" and f: "inflight w = []" and cp: "currentPath w \<noteq> Some ?sd"
  proof -
    let ?n = "(log (LoadPage ?sd) ?w1)\<lparr>routeParams := [], inflight := [AwaitLoad ?sd]\<rparr>"
    from n [OF i cp] f have nv: "navigate ?sd w = ?n" by simp
    from i have q: "navigationQueue ?n = []" by (simp add: idle_def log_def)
    let ?v = "microtasks ?n"
    from microtasks_empty_queue [OF q]
    have v: "navigationQueue ?v = []" "microqueue ?v = []" "inflight ?v = [AwaitLoad ?sd]"
      "loads (trace ?v) = loads (trace w) @ [?sd]"
      by (simp_all add: log_def)
    have s1: "step (Navigate ?sd) w = ?v" by (simp add: nv)
    let ?m = "settle 0 ok ?v"
    have m: "?m = (log (End ?sd) (finish ?sd (sync_hash ?sd ok (?v\<lparr>inflight := []\<rparr>))))
        \<lparr>microqueue := [NextPass]\<rparr>"
      using v by (simp add: settle_load [where path = ?sd])
    have qm: "navigationQueue ?m = []" "microqueue ?m = [NextPass]"
      unfolding m using v by (simp_all add: log_def finish_def)
    have "run [Navigate ?sd, Settle 0 ok] w = ?m\<lparr>microqueue := []\<rparr>"
      by (simp add: s1 microtasks_one_pass [OF qm] del: step.simps(1))
    then show ?thesis
      unfolding m using v by (simp add: log_def finish_def)
  qed
  show ?thesis
    using c [of w] n r
    by (auto simp: required_dashboards redirectPath_def starts_load_def load_started_def
          log_def)
qed

section \<open>The guards at concrete inputs\<close>

text \<open>A router that is ready and idle, with a given session.\<close>

definition ready :: "session \<Rightarrow> world" where
  "ready s = initial\<lparr>authReady := True, authSession := s\<rparr>"

lemma ready_idle: "idle (ready s)"
  by (simp add: idle_def ready_def initial_def)

lemma ready_fields:
  "authSession (ready s) = s" "currentPath (ready s) = None" "inflight (ready s) = []"
  by (simp_all add: ready_def initial_def)

theorem unauthenticated_protected_redirects_to_login_witness:
  "truthy (getRequiredType (with_leading_slash ''/personal/dashboard''))
   \<and> \<not> isAuthenticated (authSession (ready \<lparr>currentUser = None, currentUserType = None\<rparr>))
   \<and> idle (ready \<lparr>currentUser = None, currentUserType = None\<rparr>)
   \<and> redirected ''/login'' (ready \<lparr>currentUser = None, currentUserType = None\<rparr>)
        (navigate ''/personal/dashboard'' (ready \<lparr>currentUser = None, currentUserType = None\<rparr>))"
proof -
  let ?w = "ready \<lparr>currentUser = None, currentUserType = None\<rparr>"
  have h1: "truthy (getRequiredType (with_leading_slash ''/personal/dashboard''))"
    by (simp add: with_leading_slash_def required_dashboards)
  have h2: "\<not> isAuthenticated (authSession ?w)"
    by (simp add: ready_fields isAuthenticated_def)
  from unauthenticated_protected_redirects_to_login [OF h1 h2] h1 h2 ready_idle [of "\<lparr>currentUser = None, currentUserType = None\<rparr>"]
  show ?thesis by blast
qed

lemma required_exercises: "getRequiredType ''/personal/exercises'' = Some (JString ''personal'')"
  by (simp add: getRequiredType_def js_get_def protectedRoutes_def)

theorem wrong_role_redirects_to_own_dashboard_witness:
  "getRequiredType (with_leading_slash ''/personal/exercises'') = Some (JString ''personal'')
   \<and> isAuthenticated (authSession (ready \<lparr>currentUser = Some ''u1'', currentUserType = Some ''student''\<rparr>))
   \<and> getCurrentUserType (authSession (ready \<lparr>currentUser = Some ''u1'', currentUserType = Some ''student''\<rparr>))
       = Some ''student''
   \<and> canonical_dashboard ''student'' = Some ''/student/dashboard''
   \<and> ''student'' \<noteq> ''personal''
   \<and> idle (ready \<lparr>currentUser = Some ''u1'', currentUserType = Some ''student''\<rparr>)
   \<and> redirected ''/student/dashboard'' (ready \<lparr>currentUser = Some ''u1'', currentUserType = Some ''student''\<rparr>)
        (navigate ''/personal/exercises'' (ready \<lparr>currentUser = Some ''u1'', currentUserType = Some ''student''\<rparr>))"
proof -
  let ?s = "\<lparr>currentUser = Some ''u1'', currentUserType = Some ''student''\<rparr>"
  have h1: "getRequiredType (with_leading_slash ''/personal/exercises'') = Some (JString ''personal'')"
    by (simp add: with_leading_slash_def required_exercises)
  have h2: "isAuthenticated (authSession (ready ?s))"
    by (simp add: ready_fields isAuthenticated_def)
  have h3: "getCurrentUserType (authSession (ready ?s)) = Some ''student''"
    by (simp add: ready_fields getCurrentUserType_def)
  have h4: "canonical_dashboard ''student'' = Some ''/student/dashboard''" by simp
  have h5: "''student'' \<noteq> ''personal''" by simp
  from wrong_role_redirects_to_own_dashboard [OF h1 h2 h3 h4 h5] h1 h2 h3 h4 h5 ready_idle [of ?s]
  show ?thesis by blast
qed

theorem public_route_with_session_witness:
  "with_leading_slash ''/login'' \<in> set publicRoutes
   \<and> isAuthenticated (authSession (ready \<lparr>currentUser = Some ''u1'', currentUserType = Some ''personal''\<rparr>))
   \<and> getCurrentUserType (authSession (ready \<lparr>currentUser = Some ''u1'', currentUserType = Some ''personal''\<rparr>))
       = Some ''personal''
   \<and> canonical_dashboard ''personal'' = Some ''/personal/dashboard''
   \<and> idle (ready \<lparr>currentUser = Some ''u1'', currentUserType = Some ''personal''\<rparr>)
   \<and> redirected ''/personal/dashboard'' (ready \<lparr>currentUser = Some ''u1'', currentUserType = Some ''personal''\<rparr>)
        (navigate ''/login'' (ready \<lparr>currentUser = Some ''u1'', currentUserType = Some ''personal''\<rparr>))
   \<and> isAuthenticated (authSession (ready \<lparr>currentUser = Some ''u1'', currentUserType = None\<rparr>))
   \<and> getCurrentUserType (authSession (ready \<lparr>currentUser = Some ''u1'', currentUserType = None\<rparr>)) = None
   \<and> currentPath (ready \<lparr>currentUser = Some ''u1'', currentUserType = None\<rparr>)
       \<noteq> Some (with_leading_slash ''/login'')
   \<and> idle (ready \<lparr>currentUser = Some ''u1'', currentUserType = None\<rparr>)
   \<and> load_started (with_leading_slash ''/login'') (ready \<lparr>currentUser = Some ''u1'', currentUserType = None\<rparr>)
        (navigate ''/login'' (ready \<lparr>currentUser = Some ''u1'', currentUserType = None\<rparr>))"
proof -
  let ?s = "\<lparr>currentUser = Some ''u1'', currentUserType = Some ''personal''\<rparr>"
  let ?t = "\<lparr>currentUser = Some ''u1'', currentUserType = None\<rparr>"
  have h1: "with_leading_slash ''/login'' \<in> set publicRoutes"
    by (simp add: with_leading_slash_def publicRoutes_def)
  have h2: "isAuthenticated (authSession (ready ?s))"
    by (simp add: ready_fields isAuthenticated_def)
  have h3: "getCurrentUserType (authSession (ready ?s)) = Some ''personal''"
    by (simp add: ready_fields getCurrentUserType_def)
  have h4: "canonical_dashboard ''personal'' = Some ''/personal/dashboard''" by simp
  have k2: "isAuthenticated (authSession (ready ?t))"
    by (simp add: ready_fields isAuthenticated_def)
  have k3: "getCurrentUserType (authSession (ready ?t)) = None"
    by (simp add: ready_fields getCurrentUserType_def)
  have k4: "currentPath (ready ?t) \<noteq> Some (with_leading_slash ''/login'')"
    by (simp add: ready_fields)
  from public_route_with_session [OF h1 h2, of "''personal''" "''/personal/dashboard''"]
    public_route_with_session [OF h1 k2, of "''personal''" "''/personal/dashboard''"]
    h1 h2 h3 h4 k2 k3 k4 ready_idle [of ?s] ready_idle [of ?t]
  show ?thesis by blast
qed

theorem absent_role_loads_student_dashboard_witness:
  "isAuthenticated (authSession (ready \<lparr>currentUser = Some ''u1'', currentUserType = None\<rparr>))
   \<and> getCurrentUserType (authSession (ready \<lparr>currentUser = Some ''u1'', currentUserType = None\<rparr>)) = None
   \<and> currentPath (ready \<lparr>currentUser = Some ''u1'', currentUserType = None\<rparr>)
       \<noteq> Some ''/student/dashboard''
   \<and> idle (ready \<lparr>currentUser = Some ''u1'', currentUserType = None\<rparr>)
   \<and> inflight (ready \<lparr>currentUser = Some ''u1'', currentUserType = None\<rparr>) = []
   \<and> load_started ''/student/dashboard'' (ready \<lparr>currentUser = Some ''u1'', currentUserType = None\<rparr>)
        (navigate ''/student/dashboard'' (ready \<lparr>currentUser = Some ''u1'', currentUserType = None\<rparr>))
   \<and> currentPath (run [Navigate ''/student/dashboard'', Settle 0 True]
         (ready \<lparr>currentUser = Some ''u1'', currentUserType = None\<rparr>)) = Some ''/student/dashboard''"
proof -
  let ?t = "\<lparr>currentUser = Some ''u1'', currentUserType = None\<rparr>"
  have k2: "isAuthenticated (authSession (ready ?t))"
    by (simp add: ready_fields isAuthenticated_def)
  have k3: "getCurrentUserType (authSession (ready ?t)) = None"
    by (simp add: ready_fields getCurrentUserType_def)
  have k4: "currentPath (ready ?t) \<noteq> Some ''/student/dashboard''"
    by (simp add: ready_fields)
  have k5: "inflight (ready ?t) = []" by (simp add: ready_fields)
  from absent_role_loads_student_dashboard [OF k2 k3, of True] k2 k3 k4 k5 ready_idle [of ?t]
  show ?thesis by blast
qed

section \<open>The queue and the loops at concrete states\<close>

text \<open>The paths with which the helper for one path was called, in order.\<close>

definition begins :: "obs list \<Rightarrow> string list" where
  "begins tr = concat (map (\<lambda>e. case e of Begin q \<Rightarrow> [q] | _ \<Rightarrow> []) tr)"

lemma begins_append [simp]: "begins (xs @ ys) = begins xs @ begins ys"
  by (simp add: begins_def)

lemma begins_simps [simp]:
  "begins [] = []" "begins (Begin p # tr) = p # begins tr" "begins (End p # tr) = begins tr"
  "begins (LoadPage p # tr) = begins tr"
  by (simp_all add: begins_def)

lemma navigate_busy:
  "isNavigating w \<Longrightarrow>
   navigate p w =
     (if currentPath w = Some p then w
      else if navigationQueue w = [] \<or> last (navigationQueue w) \<noteq> p
           then w\<lparr>navigationQueue := navigationQueue w @ [p]\<rparr> else w)"
  by (simp add: navigate_def)

lemma with_slash [simp]: "with_leading_slash (CHR ''/'' # p) = CHR ''/'' # p"
  by (simp add: with_leading_slash_def)

text \<open>A router that is loading the login page, reached from the initial state.\<close>

definition loading_login :: world where
  "loading_login = run [Navigate ''/login'', Settle 0 True] initial"

lemma loading_login_eq:
  "loading_login =
     \<lparr>authReady = True, currentPath = None, navigationQueue = [], isNavigating = True,
      locationHash = [], appContainer = True, routeParams = [],
      authSession = \<lparr>currentUser = None, currentUserType = None\<rparr>,
      inflight = [AwaitLoad ''/login''], microqueue = [], detachedLoads = 0,
      trace = [Begin ''/login'', LoadPage ''/login'']\<rparr>"
  by (simp add: loading_login_def initial_def navigate_idle navigate_start_def
        navigate_checks_def Let_def log_def required_login publicRoutes_def settle_def
        isAuthenticated_def getCurrentUserType_def loadPage_matched [OF matchRoute_login]
        microtasks_none)

lemma required_a: "getRequiredType ''/a'' = None"
  by (simp add: getRequiredType_def js_get_def protectedRoutes_def
        object_prototype_keys_def str_includes_def)

lemma required_b: "getRequiredType ''/b'' = None"
  by (simp add: getRequiredType_def js_get_def protectedRoutes_def
        object_prototype_keys_def str_includes_def)

lemma matchRoute_a: "matchRoute ''/a'' = None"
  by (simp add: matchRoute_def js_get_def routes_def object_prototype_keys_def str_includes_def)

lemma matchRoute_b: "matchRoute ''/b'' = None"
  by (simp add: matchRoute_def js_get_def routes_def object_prototype_keys_def str_includes_def)

text \<open>
  The three requests of the claim, made while the login page is loading, run
  nothing and leave \<open>/a\<close> and \<open>/b\<close> on the queue. When the load settles, the loop
  takes \<open>/a\<close>: no route matches, \<open>loadPage\<close> starts the load of the login page
  without awaiting it and returns, and the activation ends; the loop then takes
  \<open>/b\<close>, which starts a second load of the login page while the first is still in
  progress.
\<close>

lemma three_requests_queued:
  "run [Navigate ''/a'', Navigate ''/a'', Navigate ''/b''] loading_login
     = loading_login\<lparr>navigationQueue := [''/a'', ''/b'']\<rparr>"
  by (simp add: loading_login_eq navigate_busy microtasks_none)

lemma three_requests_settled:
  "run [Settle 0 True] (loading_login\<lparr>navigationQueue := [''/a'', ''/b'']\<rparr>) =
     \<lparr>authReady = True, currentPath = Some ''/b'', navigationQueue = [], isNavigating = False,
      locationHash = ''#/login'', appContainer = True, routeParams = [],
      authSession = \<lparr>currentUser = None, currentUserType = None\<rparr>,
      inflight = [], microqueue = [], detachedLoads = 2,
      trace = [Begin ''/login'', LoadPage ''/login'', End ''/login'',
               Begin ''/a'', LoadPage ''/a'', LoadPage ''/login'', End ''/a'',
               Begin ''/b'', LoadPage ''/b'', LoadPage ''/login'', End ''/b'']\<rparr>"
  by (simp add: loading_login_eq settle_load [where path = "''/login''"] finish_def
        sync_hash_def log_def microtasks_next [where rest = "[]"] microtasks_returned [where rest = "[]"] loop_turn_def
        navigate_start_def navigate_checks_def Let_def required_a required_b
        publicRoutes_def isAuthenticated_def getCurrentUserType_def
        loadPage_unmatched [OF matchRoute_a] loadPage_unmatched [OF matchRoute_b]
        microtasks_none)

text \<open>
  Three calls of \<open>navigate\<close> in one synchronous block, on a ready router without a
  session. The first is redirected and its activation ends at once, with the busy
  flag cleared, while its loop waits at its \<open>await\<close>. The second therefore starts a
  loop of its own and suspends in the load of the login page. The third is
  queued. Then the first loop goes on, takes the third path off the queue and
  starts its activation while the second is still suspended.
\<close>

lemma block_of_three:
  "run [NavigateBlock [''/personal/dashboard'', ''/login'', ''/signup'']]
       (ready \<lparr>currentUser = None, currentUserType = None\<rparr>) =
     \<lparr>authReady = True, currentPath = None, navigationQueue = [], isNavigating = True,
      locationHash = ''#/login'', appContainer = True, routeParams = [],
      authSession = \<lparr>currentUser = None, currentUserType = None\<rparr>,
      inflight = [AwaitLoad ''/login'', AwaitLoad ''/signup''], microqueue = [],
      detachedLoads = 0,
      trace = [Begin ''/personal/dashboard'', End ''/personal/dashboard'',
               Begin ''/login'', LoadPage ''/login'',
               Begin ''/signup'', LoadPage ''/signup'']\<rparr>"
  by (simp add: ready_def initial_def navigate_def loop_turn_def navigate_start_def
        navigate_checks_def Let_def log_def redirect_def required_dashboards required_login
        required_signup publicRoutes_def isAuthenticated_def getCurrentUserType_def
        loadPage_matched [OF matchRoute_login] loadPage_matched [OF matchRoute_signup]
        microtasks_next [where rest = "[]"] microtasks_returned [where rest = "[]"] microtasks_none)

text \<open>
  Claim C5, at concrete states. For the requests \<open>/a\<close>, \<open>/a\<close>, \<open>/b\<close> made while a
  navigation is in flight, the queue collapses the repeated path and the two
  paths are begun once each, in arrival order, after the navigation in flight;
  but they are not processed one at a time without interleaving: when both have
  ended, two loads of the login page that they started are in progress at once.
  And for three calls in one synchronous block, two activations are suspended in
  their page loads at the same time.
\<close>

theorem queued_navigations_interleave:
  "isNavigating loading_login
   \<and> navigationQueue (run [Navigate ''/a'', Navigate ''/a'', Navigate ''/b''] loading_login)
       = [''/a'', ''/b'']
   \<and> begins (trace (run [Navigate ''/a'', Navigate ''/a'', Navigate ''/b'', Settle 0 True]
                       loading_login))
       = [''/login'', ''/a'', ''/b'']
   \<and> loads (trace (run [Navigate ''/a'', Navigate ''/a'', Navigate ''/b'', Settle 0 True]
                      loading_login))
       = [''/login'', ''/a'', ''/login'', ''/b'', ''/login'']
   \<and> detachedLoads (run [Navigate ''/a'', Navigate ''/a'', Navigate ''/b'', Settle 0 True]
                        loading_login) = 2
   \<and> inflight (run [NavigateBlock [''/personal/dashboard'', ''/login'', ''/signup'']]
                   (ready \<lparr>currentUser = None, currentUserType = None\<rparr>))
       = [AwaitLoad ''/login'', AwaitLoad ''/signup'']"
proof -
  have busy: "isNavigating loading_login" by (simp add: loading_login_eq)
  have split: "run [Navigate ''/a'', Navigate ''/a'', Navigate ''/b'', Settle 0 True] loading_login
      = run [Settle 0 True] (run [Navigate ''/a'', Navigate ''/a'', Navigate ''/b''] loading_login)"
    by simp
  show ?thesis
    unfolding split three_requests_queued three_requests_settled block_of_three
    using busy by simp
qed

text \<open>
  A router showing the login page that is loading the trainer's dashboard after a
  sign-in, reached from the initial state.
\<close>

definition dashboard_loading :: world where
  "dashboard_loading =
     run [Navigate ''/login'', Settle 0 True, Settle 0 True,
          SessionChange \<lparr>currentUser = Some ''u1'', currentUserType = Some ''personal''\<rparr>,
          Navigate ''/personal/dashboard''] initial"

lemma matchRoute_personal_dashboard:
  "matchRoute ''/personal/dashboard'' = Some (''/personal/dashboard'', [])"
  by (simp add: matchRoute_def js_get_def routes_def)

lemma login_loaded_eq:
  "run [Settle 0 True] loading_login =
     \<lparr>authReady = True, currentPath = Some ''/login'', navigationQueue = [], isNavigating = False,
      locationHash = ''#/login'', appContainer = True, routeParams = [],
      authSession = \<lparr>currentUser = None, currentUserType = None\<rparr>,
      inflight = [], microqueue = [], detachedLoads = 0,
      trace = [Begin ''/login'', LoadPage ''/login'', End ''/login'']\<rparr>"
  by (simp add: loading_login_eq settle_load [where path = "''/login''"] finish_def
        sync_hash_def log_def microtasks_next [where rest = "[]"] microtasks_returned [where rest = "[]"] loop_turn_def microtasks_none)

lemma dashboard_loading_eq:
  "dashboard_loading =
     \<lparr>authReady = True, currentPath = Some ''/login'', navigationQueue = [], isNavigating = True,
      locationHash = ''#/login'', appContainer = True, routeParams = [],
      authSession = \<lparr>currentUser = Some ''u1'', currentUserType = Some ''personal''\<rparr>,
      inflight = [AwaitLoad ''/personal/dashboard''], microqueue = [], detachedLoads = 0,
      trace = [Begin ''/login'', LoadPage ''/login'', End ''/login'',
               Begin ''/personal/dashboard'', LoadPage ''/personal/dashboard'']\<rparr>"
proof -
  have "dashboard_loading =
      run [SessionChange \<lparr>currentUser = Some ''u1'', currentUserType = Some ''personal''\<rparr>,
           Navigate ''/personal/dashboard''] (run [Settle 0 True] loading_login)"
    by (simp add: dashboard_loading_def loading_login_def)
  then show ?thesis
    unfolding login_loaded_eq
    by (simp add: navigate_idle navigate_start_def navigate_checks_def Let_def log_def
        required_dashboards publicRoutes_def isAuthenticated_def getCurrentUserType_def
        redirectPath_def loadPage_matched [OF matchRoute_personal_dashboard] microtasks_none)
qed

text \<open>
  Claim C6, at a concrete state. While the navigation to \<open>/personal/dashboard\<close> is
  being processed and the current path is still \<open>/login\<close>, a second request for
  \<open>/personal/dashboard\<close> is put on the queue and the path is processed a second
  time when the load settles; the request that is dropped is the one for
  \<open>/login\<close>, the path of the page on display.
\<close>

theorem duplicate_request_is_queued:
  "inflight dashboard_loading = [AwaitLoad ''/personal/dashboard'']
   \<and> isNavigating dashboard_loading
   \<and> navigationQueue dashboard_loading = []
   \<and> currentPath dashboard_loading = Some ''/login''
   \<and> navigationQueue (navigate ''/personal/dashboard'' dashboard_loading) = [''/personal/dashboard'']
   \<and> begins (trace (run [Navigate ''/personal/dashboard'', Settle 0 True] dashboard_loading))
       = [''/login'', ''/personal/dashboard'', ''/personal/dashboard'']
   \<and> navigate ''/login'' dashboard_loading = dashboard_loading"
  unfolding dashboard_loading_eq
  by (simp add: navigate_busy settle_load [where path = "''/personal/dashboard''"]
        microtasks_next [where rest = "[]"] microtasks_returned [where rest = "[]"] microtasks_none loop_turn_def
        navigate_start_def navigate_checks_def
        Let_def log_def finish_def sync_hash_def
        required_dashboards publicRoutes_def isAuthenticated_def getCurrentUserType_def
        redirectPath_def)

section \<open>Documents, the document store and the identity provider\<close>

text \<open>
  A document of the \<open>users\<close> collection with the fields that auth.js writes
  (the server timestamps are left out), and an entry of the public index
  \<open>pendingActivations\<close>. A field that a document does not have, or that holds
  null, is \<open>None\<close>.
\<close>

record profile =
  uid :: string
  name :: string
  email :: string
  userType :: string
  status :: string
  personalId :: "string option"
  authUid :: "string option"
  students :: "string list"
  assignedWorkouts :: "string list"
  createdBy :: "string option"

record index_entry =
  studentDocId :: string
  indexStatus :: string

text \<open>
  Modelled from the spec: the document store collaborator (section 6), which is a
  hosted service and not code of the repository. Get by key, set (create or
  replace), update (fails when the document is absent), delete, query by field
  equality, and the array-union and array-remove updates of one field. Each
  collection is a list of keys with their documents, so that documents can be
  counted and queried. The store is taken to be reachable: an operation fails
  only for the reason given here.
\<close>

record store =
  users :: "(string \<times> profile) list"
  pendingActivations :: "(string \<times> index_entry) list"

definition get_doc :: "(string \<times> 'a) list \<Rightarrow> string \<Rightarrow> 'a option" where
  "get_doc coll key = map_of coll key"

definition set_doc :: "string \<Rightarrow> 'a \<Rightarrow> (string \<times> 'a) list \<Rightarrow> (string \<times> 'a) list" where
  "set_doc key doc coll = AList.update key doc coll"

definition update_doc ::
  "string \<Rightarrow> ('a \<Rightarrow> 'a) \<Rightarrow> (string \<times> 'a) list \<Rightarrow> (string \<times> 'a) list option" where
  "update_doc key f coll =
     (case map_of coll key of
        None \<Rightarrow> None
      | Some doc \<Rightarrow> Some (AList.update key (f doc) coll))"

definition delete_doc :: "string \<Rightarrow> (string \<times> 'a) list \<Rightarrow> (string \<times> 'a) list" where
  "delete_doc key coll = AList.delete key coll"

definition where_email :: "string \<Rightarrow> (string \<times> profile) list \<Rightarrow> (string \<times> profile) list" where
  "where_email e coll = filter (\<lambda>(key, doc). email doc = e) coll"

definition arrayUnion :: "string \<Rightarrow> string list \<Rightarrow> string list" where
  "arrayUnion x xs = (if x \<in> set xs then xs else xs @ [x])"

definition arrayRemove :: "string \<Rightarrow> string list \<Rightarrow> string list" where
  "arrayRemove x xs = removeAll x xs"

text \<open>
  Modelled from the spec: the identity provider collaborator (section 6), also a
  hosted service. An account is an email with its password and the uid of the
  identity; \<open>signedIn\<close> is the provider's current identity. Creating an account
  fails for a password shorter than six characters and for an email that has an
  account, and otherwise signs the new identity in; its uid is chosen by the
  provider and is a parameter here. Signing in fails for an unknown email and for
  a wrong password. Every sign-in and every sign-out is an identity change of
  which the provider notifies its subscriber, asynchronously:
  \<open>notifications\<close> are the changes not yet delivered, oldest first.
\<close>

datatype auth_code =
    EmailAlreadyInUse | InvalidEmail | WeakPassword | UserNotFound | WrongPassword
  | InvalidCredential | TooManyRequests | UserDisabled

record provider =
  accounts :: "(string \<times> string \<times> string) list"
  signedIn :: "string option"
  notifications :: "string option list"

definition createUserWithEmailAndPassword ::
  "string \<Rightarrow> string \<Rightarrow> string \<Rightarrow> provider \<Rightarrow> (auth_code + string) \<times> provider" where
  "createUserWithEmailAndPassword newUid mail password a =
     (if length password < 6 then (Inl WeakPassword, a)
      else (case map_of (accounts a) mail of
              Some acc \<Rightarrow> (Inl EmailAlreadyInUse, a)
            | None \<Rightarrow>
                (Inr newUid,
                 a\<lparr>accounts := accounts a @ [(mail, password, newUid)],
                   signedIn := Some newUid,
                   notifications := notifications a @ [Some newUid]\<rparr>)))"

definition signInWithEmailAndPassword ::
  "string \<Rightarrow> string \<Rightarrow> provider \<Rightarrow> (auth_code + string) \<times> provider" where
  "signInWithEmailAndPassword mail password a =
     (case map_of (accounts a) mail of
        None \<Rightarrow> (Inl UserNotFound, a)
      | Some (pw, user) \<Rightarrow>
          if pw = password
          then (Inr user, a\<lparr>signedIn := Some user,
                            notifications := notifications a @ [Some user]\<rparr>)
          else (Inl WrongPassword, a))"

definition signOut :: "provider \<Rightarrow> provider" where
  "signOut a = a\<lparr>signedIn := None, notifications := notifications a @ [None]\<rparr>"

section \<open>The auth manager (auth.js)\<close>

text \<open>
  The provider, the store, the two session fields of the auth manager, and the
  activations of the manager's auth-state listener that are suspended at the get
  of a profile record (the uid of each). An operation returns a result value and
  never throws; the failures are the messages of auth.js, named after the error
  kinds of the specification, and the provider's codes as \<open>_translateError\<close>
  translates them.
\<close>

record backend =
  auth :: provider
  db :: store
  manager :: session
  fetching :: "string list"

datatype error =
    ValidationError
  | NotAuthenticated
  | AuthorizationError
  | MissingFields
  | ConflictError
  | NotFoundError
  | DataIntegrityError
  | AccountDisabledError
  | ProviderError auth_code
  | StoreError

datatype auth_result = AuthSuccess string string | AuthFailure error

text \<open>
  \<open>email.toLowerCase().trim()\<close> and \<open>replace(/[^a-z0-9]/g, '_')\<close> on code units
  below 256: the capital letters of ASCII and Latin-1 have lower-case forms 32
  above them; white space is tab to carriage return, space and no-break space.
\<close>

definition toLowerCase_char :: "char \<Rightarrow> char" where
  "toLowerCase_char c =
     (let n = (of_char c :: nat)
      in if (65 \<le> n \<and> n \<le> 90) \<or> (192 \<le> n \<and> n \<le> 222 \<and> n \<noteq> 215)
         then char_of (n + 32) else c)"

definition toLowerCase :: "string \<Rightarrow> string" where
  "toLowerCase s = map toLowerCase_char s"

definition is_space :: "char \<Rightarrow> bool" where
  "is_space c = ((of_char c :: nat) \<in> {9, 10, 11, 12, 13, 32, 160})"

definition trim :: "string \<Rightarrow> string" where
  "trim s = rev (dropWhile is_space (rev (dropWhile is_space s)))"

definition sanitize_char :: "char \<Rightarrow> char" where
  "sanitize_char c =
     (let n = (of_char c :: nat)
      in if (97 \<le> n \<and> n \<le> 122) \<or> (48 \<le> n \<and> n \<le> 57) then c else CHR ''_'')"

definition emailKey_of :: "string \<Rightarrow> string" where
  "emailKey_of normalizedEmail = map sanitize_char normalizedEmail"

text \<open>
  \<open>createStudentAccount(name, email)\<close>. The id of the new document is generated
  by the store (\<open>doc()\<close> without a key) and is a parameter here.
\<close>

definition createStudentAccount ::
  "string \<Rightarrow> string \<Rightarrow> string \<Rightarrow> backend \<Rightarrow> (error + string) \<times> backend" where
  "createStudentAccount newId nm mail b =
     (case currentUser (manager b) of
        None \<Rightarrow> (Inl NotAuthenticated, b)
      | Some personalUid \<Rightarrow>
          if currentUserType (manager b) \<noteq> Some ''personal'' then (Inl AuthorizationError, b)
          else if nm = [] \<or> mail = [] then (Inl MissingFields, b)
          else
            let normalizedEmail = trim (toLowerCase mail) in
            if where_email normalizedEmail (users (db b)) \<noteq> [] then (Inl ConflictError, b)
            else
              let users1 = set_doc newId
                    \<lparr>uid = newId, name = trim nm, email = normalizedEmail,
                     userType = ''student'', status = ''pending'',
                     personalId = Some personalUid, authUid = None, students = [],
                     assignedWorkouts = [], createdBy = Some personalUid\<rparr>
                    (users (db b))
              in (case update_doc personalUid
                         (\<lambda>d. d\<lparr>students := arrayUnion newId (students d)\<rparr>) users1 of
                    None \<Rightarrow> (Inl StoreError, b\<lparr>db := (db b)\<lparr>users := users1\<rparr>\<rparr>)
                  | Some users2 \<Rightarrow>
                      (Inr newId,
                       b\<lparr>db := (db b)\<lparr>users := users2,
                            pendingActivations :=
                              set_doc (emailKey_of normalizedEmail)
                                \<lparr>studentDocId = newId, indexStatus = ''pending''\<rparr>
                                (pendingActivations (db b))\<rparr>\<rparr>)))"



text \<open>
  \<open>activateStudentAccount(email, password, studentDocId)\<close>, with the uid that the
  provider gives to a new identity as a parameter. Step 2 creates the identity or,
  when the email has one, signs in; the steps after the final document is written
  are best effort.
\<close>

definition identity_for ::
  "string \<Rightarrow> string \<Rightarrow> string \<Rightarrow> provider \<Rightarrow> (auth_code + string) \<times> provider" where
  "identity_for newUid normalizedEmail password a =
     (case createUserWithEmailAndPassword newUid normalizedEmail password a of
        (Inr user, a') \<Rightarrow> (Inr user, a')
      | (Inl code, a') \<Rightarrow>
          if code = EmailAlreadyInUse
          then signInWithEmailAndPassword normalizedEmail password a'
          else (Inl code, a'))"

definition update_trainer_list ::
  "string option \<Rightarrow> string \<Rightarrow> string \<Rightarrow> (string \<times> profile) list \<Rightarrow> (string \<times> profile) list" where
  "update_trainer_list trainer docId user coll =
     (case trainer of
        None \<Rightarrow> coll
      | Some pid \<Rightarrow>
          if pid = [] then coll
          else (case update_doc pid (\<lambda>d. d\<lparr>students := arrayRemove docId (students d)\<rparr>) coll of
                  None \<Rightarrow> coll
                | Some coll1 \<Rightarrow>
                    (case update_doc pid (\<lambda>d. d\<lparr>students := arrayUnion user (students d)\<rparr>) coll1 of
                       None \<Rightarrow> coll1
                     | Some coll2 \<Rightarrow> coll2)))"

definition activateStudentAccount ::
  "string \<Rightarrow> string \<Rightarrow> string \<Rightarrow> string \<Rightarrow> backend \<Rightarrow> auth_result \<times> backend" where
  "activateStudentAccount newUid mail password docId b =
     (if length password < 6 then (AuthFailure ValidationError, b)
      else
        let normalizedEmail = trim (toLowerCase mail) in
        case get_doc (users (db b)) docId of
          None \<Rightarrow> (AuthFailure NotFoundError, b)
        | Some studentData \<Rightarrow>
            (case identity_for newUid normalizedEmail password (auth b) of
               (Inl code, a') \<Rightarrow> (AuthFailure (ProviderError code), b\<lparr>auth := a'\<rparr>)
             | (Inr user, a') \<Rightarrow>
                 let session' = \<lparr>currentUser = Some user, currentUserType = Some ''student''\<rparr>
                 in if (case get_doc (users (db b)) user of
                          None \<Rightarrow> False
                        | Some existing \<Rightarrow> status existing = ''active'')
                    then (AuthSuccess user ''student'', b\<lparr>auth := a', manager := session'\<rparr>)
                    else
                      let users1 = set_doc user
                            (studentData\<lparr>uid := user, authUid := Some user, status := ''active''\<rparr>)
                            (users (db b));
                          users2 = delete_doc docId users1;
                          users3 = update_trainer_list (personalId studentData) docId user users2;
                          index' = delete_doc (emailKey_of normalizedEmail)
                                     (pendingActivations (db b))
                      in (AuthSuccess user ''student'',
                          b\<lparr>auth := a',
                            db := \<lparr>users = users3, pendingActivations = index'\<rparr>,
                            manager := session'\<rparr>)))"

text \<open>
  \<open>login(email, password)\<close>, in the two parts between which other code can run:
  up to the \<open>await\<close> of the profile record, and from there to the return (the
  sign-out is awaited too, but nothing of \<open>login\<close> follows it but the return).
  \<open>login\<close> is the whole call when nothing else runs in between.
\<close>

datatype login_step = LoginDone auth_result | AwaitProfile string

definition login_start :: "string \<Rightarrow> string \<Rightarrow> backend \<Rightarrow> login_step \<times> backend" where
  "login_start mail password b =
     (case signInWithEmailAndPassword mail password (auth b) of
        (Inl code, a') \<Rightarrow> (LoginDone (AuthFailure (ProviderError code)), b\<lparr>auth := a'\<rparr>)
      | (Inr user, a') \<Rightarrow> (AwaitProfile user, b\<lparr>auth := a'\<rparr>))"

definition login_resume :: "string \<Rightarrow> backend \<Rightarrow> auth_result \<times> backend" where
  "login_resume user b =
     (case get_doc (users (db b)) user of
        None \<Rightarrow> (AuthFailure DataIntegrityError, b)
      | Some data \<Rightarrow>
          if userType data = ''student'' \<and> status data = ''inactive''
          then (AuthFailure AccountDisabledError, b\<lparr>auth := signOut (auth b)\<rparr>)
          else (AuthSuccess user (userType data),
                b\<lparr>manager := \<lparr>currentUser = Some user,
                                currentUserType = Some (userType data)\<rparr>\<rparr>))"

definition login :: "string \<Rightarrow> string \<Rightarrow> backend \<Rightarrow> auth_result \<times> backend" where
  "login mail password b =
     (case login_start mail password b of
        (LoginDone result, b') \<Rightarrow> (result, b')
      | (AwaitProfile user, b') \<Rightarrow> login_resume user b')"

text \<open>
  The listener that \<open>initialize\<close> attaches to the provider (auth.js lines 31 to
  52; the module calls \<open>initialize\<close> when it is loaded). \<open>deliver\<close> is the
  provider handing over its oldest undelivered identity change: for an identity
  the listener stores it in \<open>currentUser\<close> and suspends at the get of its profile
  record; for none it clears both fields. \<open>fetched\<close> is the get of the i-th
  suspended activation settling: the role becomes the record's \<open>userType\<close>, or
  null when there is no record or the get failed. The callbacks registered with
  the manager itself are code of the pages and are left out.
\<close>

definition deliver :: "backend \<Rightarrow> backend" where
  "deliver b =
     (case notifications (auth b) of
        [] \<Rightarrow> b
      | change # rest \<Rightarrow>
          (case change of
             Some user \<Rightarrow>
               b\<lparr>auth := (auth b)\<lparr>notifications := rest\<rparr>,
                 manager := (manager b)\<lparr>currentUser := Some user\<rparr>,
                 fetching := fetching b @ [user]\<rparr>
           | None \<Rightarrow>
               b\<lparr>auth := (auth b)\<lparr>notifications := rest\<rparr>,
                 manager := \<lparr>currentUser = None, currentUserType = None\<rparr>\<rparr>))"

definition fetched :: "nat \<Rightarrow> bool \<Rightarrow> backend \<Rightarrow> backend" where
  "fetched i ok b =
     (if i < length (fetching b) then
        b\<lparr>manager := (manager b)\<lparr>currentUserType :=
               (if \<not> ok then None
                else (case get_doc (users (db b)) (fetching b ! i) of
                        None \<Rightarrow> None
                      | Some doc \<Rightarrow> Some (userType doc)))\<rparr>,
          fetching := take i (fetching b) @ drop (Suc i) (fetching b)\<rparr>
      else b)"

section \<open>Login of a disabled student\<close>

text \<open>A store with one disabled student; nobody is signed in and the session is cleared.\<close>

definition disabled_student_backend :: backend where
  "disabled_student_backend =
     \<lparr>auth = \<lparr>accounts = [(''ana@mail.com'', ''secret1'', ''u2'')], signedIn = None,
              notifications = []\<rparr>,
      db = \<lparr>users =
              [(''u2'', \<lparr>uid = ''u2'', name = ''Ana'', email = ''ana@mail.com'',
                        userType = ''student'', status = ''inactive'',
                        personalId = Some ''t1'', authUid = Some ''u2'', students = [],
                        assignedWorkouts = [], createdBy = Some ''t1''\<rparr>)],
            pendingActivations = []\<rparr>,
      manager = \<lparr>currentUser = None, currentUserType = None\<rparr>,
      fetching = []\<rparr>"

definition disabled_signed_in :: backend where
  "disabled_signed_in = snd (login_start ''ana@mail.com'' ''secret1'' disabled_student_backend)"

lemma disabled_signed_in_eq:
  "login_start ''ana@mail.com'' ''secret1'' disabled_student_backend =
     (AwaitProfile ''u2'',
      disabled_student_backend
        \<lparr>auth := \<lparr>accounts = [(''ana@mail.com'', ''secret1'', ''u2'')], signedIn = Some ''u2'',
                  notifications = [Some ''u2'']\<rparr>\<rparr>)"
  by (simp add: login_start_def signInWithEmailAndPassword_def disabled_student_backend_def)

text \<open>What \<open>login\<close> itself does for a disabled student, whatever the listener did before.\<close>

lemma login_resume_disabled:
  assumes "get_doc (users (db b)) user = Some data"
    and "userType data = ''student''" and "status data = ''inactive''"
  shows "login_resume user b = (AuthFailure AccountDisabledError, b\<lparr>auth := signOut (auth b)\<rparr>)"
  using assms by (simp add: login_resume_def)

text \<open>The states of two schedules of \<open>login\<close> and the listener, one after the other.\<close>

definition ana_account :: "(string \<times> string \<times> string) list" where
  "ana_account = [(''ana@mail.com'', ''secret1'', ''u2'')]"

lemma disabled_signed_in_state:
  "disabled_signed_in = disabled_student_backend
     \<lparr>auth := \<lparr>accounts = ana_account, signedIn = Some ''u2'',
               notifications = [Some ''u2'']\<rparr>\<rparr>"
  by (simp add: disabled_signed_in_def disabled_signed_in_eq ana_account_def)

lemma disabled_student_record:
  "get_doc (users (db disabled_student_backend)) ''u2'' =
     Some \<lparr>uid = ''u2'', name = ''Ana'', email = ''ana@mail.com'',
           userType = ''student'', status = ''inactive'',
           personalId = Some ''t1'', authUid = Some ''u2'', students = [],
           assignedWorkouts = [], createdBy = Some ''t1''\<rparr>"
  by (simp add: disabled_student_backend_def get_doc_def)

lemma disabled_student_manager:
  "manager disabled_student_backend = \<lparr>currentUser = None, currentUserType = None\<rparr>"
  by (simp add: disabled_student_backend_def)

lemma disabled_student_fetching: "fetching disabled_student_backend = []"
  by (simp add: disabled_student_backend_def)

lemma sign_in_delivered:
  "deliver disabled_signed_in = disabled_student_backend
     \<lparr>auth := \<lparr>accounts = ana_account, signedIn = Some ''u2'', notifications = []\<rparr>,
       manager := \<lparr>currentUser = Some ''u2'', currentUserType = None\<rparr>,
       fetching := [''u2'']\<rparr>"
  by (simp add: disabled_signed_in_state deliver_def disabled_student_manager
        disabled_student_fetching)

lemma role_fetched:
  "fetched 0 True (deliver disabled_signed_in) = disabled_student_backend
     \<lparr>auth := \<lparr>accounts = ana_account, signedIn = Some ''u2'', notifications = []\<rparr>,
       manager := \<lparr>currentUser = Some ''u2'', currentUserType = Some ''student''\<rparr>,
       fetching := []\<rparr>"
  by (simp only: sign_in_delivered) (simp add: fetched_def disabled_student_record)

lemma login_after_role:
  "login_resume ''u2'' (fetched 0 True (deliver disabled_signed_in)) =
     (AuthFailure AccountDisabledError,
      disabled_student_backend
        \<lparr>auth := \<lparr>accounts = ana_account, signedIn = None, notifications = [None]\<rparr>,
          manager := \<lparr>currentUser = Some ''u2'', currentUserType = Some ''student''\<rparr>,
          fetching := []\<rparr>)"
  by (simp only: role_fetched) (simp add: login_resume_def disabled_student_record signOut_def)

lemma sign_out_delivered:
  "deliver (snd (login_resume ''u2'' (fetched 0 True (deliver disabled_signed_in)))) =
     disabled_student_backend
       \<lparr>auth := \<lparr>accounts = ana_account, signedIn = None, notifications = []\<rparr>,
         manager := \<lparr>currentUser = None, currentUserType = None\<rparr>,
         fetching := []\<rparr>"
  by (simp only: login_after_role snd_conv) (simp add: deliver_def)

lemma login_before_role:
  "login_resume ''u2'' (deliver disabled_signed_in) =
     (AuthFailure AccountDisabledError,
      disabled_student_backend
        \<lparr>auth := \<lparr>accounts = ana_account, signedIn = None, notifications = [None]\<rparr>,
          manager := \<lparr>currentUser = Some ''u2'', currentUserType = None\<rparr>,
          fetching := [''u2'']\<rparr>)"
  by (simp only: sign_in_delivered) (simp add: login_resume_def disabled_student_record signOut_def)

lemma sign_out_before_role:
  "deliver (snd (login_resume ''u2'' (deliver disabled_signed_in))) =
     disabled_student_backend
       \<lparr>auth := \<lparr>accounts = ana_account, signedIn = None, notifications = []\<rparr>,
         manager := \<lparr>currentUser = None, currentUserType = None\<rparr>,
         fetching := [''u2'']\<rparr>"
  by (simp only: login_before_role snd_conv) (simp add: deliver_def)

lemma role_after_sign_out:
  "fetched 0 True (deliver (snd (login_resume ''u2'' (deliver disabled_signed_in)))) =
     disabled_student_backend
       \<lparr>auth := \<lparr>accounts = ana_account, signedIn = None, notifications = []\<rparr>,
         manager := \<lparr>currentUser = None, currentUserType = Some ''student''\<rparr>,
         fetching := []\<rparr>"
  by (simp only: sign_out_before_role) (simp add: fetched_def disabled_student_record)

text \<open>
  Claim C7, at the store above. The disabled student's credentials are accepted
  and \<open>login\<close> waits for the profile record, the session still cleared. The
  listener receives the sign-in: the session is authenticated, and when the
  listener's own get resolves the role is student. \<open>login\<close> then returns the
  failure for a disabled account and the provider is signed out, but the
  session fields are still set; they are cleared only when the listener
  receives the sign-out. When the listener's get resolves after that, the role
  is student in a session without an identity.
\<close>

theorem disabled_login_sets_session:
  "fst (login_start ''ana@mail.com'' ''secret1'' disabled_student_backend) = AwaitProfile ''u2''
   \<and> manager disabled_signed_in = \<lparr>currentUser = None, currentUserType = None\<rparr>
   \<and> manager (deliver disabled_signed_in) = \<lparr>currentUser = Some ''u2'', currentUserType = None\<rparr>
   \<and> isAuthenticated (manager (deliver disabled_signed_in))
   \<and> manager (fetched 0 True (deliver disabled_signed_in))
       = \<lparr>currentUser = Some ''u2'', currentUserType = Some ''student''\<rparr>
   \<and> fst (login_resume ''u2'' (fetched 0 True (deliver disabled_signed_in)))
       = AuthFailure AccountDisabledError
   \<and> signedIn (auth (snd (login_resume ''u2'' (fetched 0 True (deliver disabled_signed_in))))) = None
   \<and> manager (snd (login_resume ''u2'' (fetched 0 True (deliver disabled_signed_in))))
       = \<lparr>currentUser = Some ''u2'', currentUserType = Some ''student''\<rparr>
   \<and> manager (deliver (snd (login_resume ''u2'' (fetched 0 True (deliver disabled_signed_in)))))
       = \<lparr>currentUser = None, currentUserType = None\<rparr>
   \<and> fst (login_resume ''u2'' (deliver disabled_signed_in)) = AuthFailure AccountDisabledError
   \<and> manager (fetched 0 True (deliver (snd (login_resume ''u2'' (deliver disabled_signed_in)))))
       = \<lparr>currentUser = None, currentUserType = Some ''student''\<rparr>"
proof -
  have "fst (login_start ''ana@mail.com'' ''secret1'' disabled_student_backend) = AwaitProfile ''u2''"
    by (simp add: disabled_signed_in_eq)
  moreover have "manager disabled_signed_in = \<lparr>currentUser = None, currentUserType = None\<rparr>"
    by (simp add: disabled_signed_in_state disabled_student_manager)
  moreover have "manager (deliver disabled_signed_in)
      = \<lparr>currentUser = Some ''u2'', currentUserType = None\<rparr>"
    by (simp add: sign_in_delivered)
  moreover have "isAuthenticated (manager (deliver disabled_signed_in))"
    by (simp add: sign_in_delivered isAuthenticated_def)
  moreover have "manager (fetched 0 True (deliver disabled_signed_in))
      = \<lparr>currentUser = Some ''u2'', currentUserType = Some ''student''\<rparr>"
    by (simp add: role_fetched)
  moreover have "fst (login_resume ''u2'' (fetched 0 True (deliver disabled_signed_in)))
      = AuthFailure AccountDisabledError"
    by (simp add: login_after_role)
  moreover have
    "signedIn (auth (snd (login_resume ''u2'' (fetched 0 True (deliver disabled_signed_in))))) = None"
    by (simp add: login_after_role)
  moreover have "manager (snd (login_resume ''u2'' (fetched 0 True (deliver disabled_signed_in))))
      = \<lparr>currentUser = Some ''u2'', currentUserType = Some ''student''\<rparr>"
    by (simp add: login_after_role)
  moreover have
    "manager (deliver (snd (login_resume ''u2'' (fetched 0 True (deliver disabled_signed_in)))))
      = \<lparr>currentUser = None, currentUserType = None\<rparr>"
    by (simp add: sign_out_delivered)
  moreover have "fst (login_resume ''u2'' (deliver disabled_signed_in))
      = AuthFailure AccountDisabledError"
    by (simp add: login_before_role)
  moreover have
    "manager (fetched 0 True (deliver (snd (login_resume ''u2'' (deliver disabled_signed_in)))))
      = \<lparr>currentUser = None, currentUserType = Some ''student''\<rparr>"
    by (simp add: role_after_sign_out)
  ultimately show ?thesis by blast
qed

section \<open>Registering and activating a student\<close>

text \<open>
  A scenario: a trainer who is signed in registers a student; the student then
  activates the account from a browser of their own, which is a new client of the
  same provider and store (nobody signed in, session cleared).
\<close>

definition new_client :: "backend \<Rightarrow> backend" where
  "new_client b =
     b\<lparr>auth := (auth b)\<lparr>signedIn := None, notifications := []\<rparr>,
       manager := \<lparr>currentUser = None, currentUserType = None\<rparr>,
       fetching := []\<rparr>"

definition trainer_backend :: backend where
  "trainer_backend =
     \<lparr>auth = \<lparr>accounts = [(''coach@mail.com'', ''coachpw'', ''t1'')], signedIn = Some ''t1'',
              notifications = []\<rparr>,
      db = \<lparr>users =
              [(''t1'', \<lparr>uid = ''t1'', name = ''Coach'', email = ''coach@mail.com'',
                        userType = ''personal'', status = ''active'',
                        personalId = None, authUid = None, students = [],
                        assignedWorkouts = [], createdBy = None\<rparr>)],
            pendingActivations = []\<rparr>,
      manager = \<lparr>currentUser = Some ''t1'', currentUserType = Some ''personal''\<rparr>,
       fetching = []\<rparr>"

definition student_registered :: backend where
  "student_registered = snd (createStudentAccount ''s1'' ''Ana'' ''Ana@Mail.com'' trainer_backend)"

definition student_activated :: backend where
  "student_activated =
     snd (activateStudentAccount ''u2'' ''Ana@Mail.com'' ''secret1'' ''s1''
            (new_client student_registered))"

lemma ana_normalized: "trim (toLowerCase ''Ana@Mail.com'') = ''ana@mail.com''"
  by code_simp

lemma ana_key: "emailKey_of ''ana@mail.com'' = ''ana_mail_com''"
  by code_simp

lemma ana_name: "trim ''Ana'' = ''Ana''"
  by code_simp

lemma student_registered_eq:
  "createStudentAccount ''s1'' ''Ana'' ''Ana@Mail.com'' trainer_backend =
     (Inr ''s1'',
      \<lparr>auth = \<lparr>accounts = [(''coach@mail.com'', ''coachpw'', ''t1'')], signedIn = Some ''t1'',
              notifications = []\<rparr>,
       db = \<lparr>users =
               [(''t1'', \<lparr>uid = ''t1'', name = ''Coach'', email = ''coach@mail.com'',
                         userType = ''personal'', status = ''active'',
                         personalId = None, authUid = None, students = [''s1''],
                         assignedWorkouts = [], createdBy = None\<rparr>),
                (''s1'', \<lparr>uid = ''s1'', name = ''Ana'', email = ''ana@mail.com'',
                         userType = ''student'', status = ''pending'',
                         personalId = Some ''t1'', authUid = None, students = [],
                         assignedWorkouts = [], createdBy = Some ''t1''\<rparr>)],
             pendingActivations =
               [(''ana_mail_com'', \<lparr>studentDocId = ''s1'', indexStatus = ''pending''\<rparr>)]\<rparr>,
       manager = \<lparr>currentUser = Some ''t1'', currentUserType = Some ''personal''\<rparr>,
       fetching = []\<rparr>)"
  by (simp add: createStudentAccount_def trainer_backend_def ana_normalized ana_key ana_name
        where_email_def set_doc_def update_doc_def arrayUnion_def Let_def)

lemma student_activated_eq:
  "activateStudentAccount ''u2'' ''Ana@Mail.com'' ''secret1'' ''s1'' (new_client student_registered) =
     (AuthSuccess ''u2'' ''student'',
      \<lparr>auth = \<lparr>accounts = [(''coach@mail.com'', ''coachpw'', ''t1''),
                           (''ana@mail.com'', ''secret1'', ''u2'')],
              signedIn = Some ''u2'', notifications = [Some ''u2'']\<rparr>,
       db = \<lparr>users =
               [(''t1'', \<lparr>uid = ''t1'', name = ''Coach'', email = ''coach@mail.com'',
                         userType = ''personal'', status = ''active'',
                         personalId = None, authUid = None, students = [''u2''],
                         assignedWorkouts = [], createdBy = None\<rparr>),
                (''u2'', \<lparr>uid = ''u2'', name = ''Ana'', email = ''ana@mail.com'',
                         userType = ''student'', status = ''active'',
                         personalId = Some ''t1'', authUid = Some ''u2'', students = [],
                         assignedWorkouts = [], createdBy = Some ''t1''\<rparr>)],
             pendingActivations = []\<rparr>,
       manager = \<lparr>currentUser = Some ''u2'', currentUserType = Some ''student''\<rparr>,
       fetching = []\<rparr>)"
  by (simp add: student_registered_def student_registered_eq new_client_def
        activateStudentAccount_def identity_for_def createUserWithEmailAndPassword_def
        ana_normalized ana_key get_doc_def set_doc_def delete_doc_def update_doc_def
        update_trainer_list_def arrayUnion_def arrayRemove_def Let_def)


lemma student_activated_db:
  "student_activated =
      \<lparr>auth = \<lparr>accounts = [(''coach@mail.com'', ''coachpw'', ''t1''),
                           (''ana@mail.com'', ''secret1'', ''u2'')],
              signedIn = Some ''u2'', notifications = [Some ''u2'']\<rparr>,
       db = \<lparr>users =
               [(''t1'', \<lparr>uid = ''t1'', name = ''Coach'', email = ''coach@mail.com'',
                         userType = ''personal'', status = ''active'',
                         personalId = None, authUid = None, students = [''u2''],
                         assignedWorkouts = [], createdBy = None\<rparr>),
                (''u2'', \<lparr>uid = ''u2'', name = ''Ana'', email = ''ana@mail.com'',
                         userType = ''student'', status = ''active'',
                         personalId = Some ''t1'', authUid = Some ''u2'', students = [],
                         assignedWorkouts = [], createdBy = Some ''t1''\<rparr>)],
             pendingActivations = []\<rparr>,
       manager = \<lparr>currentUser = Some ''u2'', currentUserType = Some ''student''\<rparr>,
       fetching = []\<rparr>"
  by (simp add: student_activated_def student_activated_eq)

text \<open>
  A call of \<open>activateStudentAccount\<close> that writes the final record deletes the
  provisional one, so that any later call with the same provisional id stops at
  step 1.
\<close>

lemma update_doc_other:
  "update_doc key f coll = Some coll' \<Longrightarrow> k \<noteq> key \<Longrightarrow> map_of coll' k = map_of coll k"
  by (auto simp: update_doc_def update_conv' split: option.splits)

lemma update_doc_absent: "map_of coll key = None \<Longrightarrow> update_doc key f coll = None"
  by (simp add: update_doc_def)

lemma update_trainer_list_absent:
  assumes "map_of coll docId = None"
  shows "map_of (update_trainer_list trainer docId user coll) docId = None"
proof (cases trainer)
  case None
  with assms show ?thesis by (simp add: update_trainer_list_def)
next
  case (Some pid)
  show ?thesis
  proof (cases "pid = docId")
    case True
    with assms Some show ?thesis
      by (auto simp: update_trainer_list_def update_doc_absent)
  next
    case False
    with assms Some show ?thesis
      by (auto simp: update_trainer_list_def update_doc_other split: option.splits)
  qed
qed

lemma later_activation_not_found:
  assumes first: "activateStudentAccount newUid mail password docId c = (AuthSuccess user t, c')"
    and wrote: "get_doc (users (db c')) user \<noteq> get_doc (users (db c)) user"
    and other: "docId \<noteq> user"
  shows "activateStudentAccount newUid' mail password docId c' = (AuthFailure NotFoundError, c')"
proof -
  from first have pw: "\<not> length password < 6"
    by (auto simp: activateStudentAccount_def split: if_splits)
  have "get_doc (users (db c')) docId = None"
    using first wrote other
    by (auto simp: activateStudentAccount_def Let_def get_doc_def set_doc_def delete_doc_def
          delete_conv' update_trainer_list_absent
          split: if_splits option.splits prod.splits sum.splits)
  with pw show ?thesis by (simp add: activateStudentAccount_def Let_def)
qed

text \<open>
  Claim C4, at the scenario. The first call of \<open>activateStudentAccount\<close> succeeds
  and completes every step. The second call with the same email, password and
  provisional id returns the failure for a missing student record and changes
  nothing: step 1 reads the provisional record, which step 5 of the first call
  deleted, before the check for a completed migration is reached. One profile
  record with the student's email remains.
\<close>

theorem second_activation_fails:
  "fst (activateStudentAccount ''u2'' ''Ana@Mail.com'' ''secret1'' ''s1''
          (new_client student_registered)) = AuthSuccess ''u2'' ''student''
   \<and> fst (activateStudentAccount ''u3'' ''Ana@Mail.com'' ''secret1'' ''s1'' student_activated)
       = AuthFailure NotFoundError
   \<and> snd (activateStudentAccount ''u3'' ''Ana@Mail.com'' ''secret1'' ''s1'' student_activated)
       = student_activated
   \<and> map fst (where_email ''ana@mail.com'' (users (db student_activated))) = [''u2'']"
proof -
  have first: "fst (activateStudentAccount ''u2'' ''Ana@Mail.com'' ''secret1'' ''s1''
          (new_client student_registered)) = AuthSuccess ''u2'' ''student''"
    by (simp add: student_activated_eq)
  have gone: "get_doc (users (db student_activated)) ''s1'' = None"
    by (simp add: student_activated_db get_doc_def)
  have second: "activateStudentAccount ''u3'' ''Ana@Mail.com'' ''secret1'' ''s1'' student_activated
      = (AuthFailure NotFoundError, student_activated)"
    by (simp add: activateStudentAccount_def Let_def gone)
  have one: "map fst (where_email ''ana@mail.com'' (users (db student_activated))) = [''u2'']"
    by (simp add: student_activated_db where_email_def)
  from first second one show ?thesis by simp
qed












end
